theory Spec2Isabelle
  imports Complex_Main
begin

section \<open>JavaScript numbers and strings\<close>

text \<open>
  The palette editor of \<^verbatim>\<open>src/App.tsx\<close> computes with JavaScript numbers. They are
  modelled as exact reals (every value that occurs is rational): the rounding error of
  IEEE doubles is not part of the model. \<^verbatim>\<open>Math.round\<close> rounds half up,
  \<^verbatim>\<open>%\<close> is the remainder of the truncating division (it keeps the sign of the
  dividend), \<^verbatim>\<open>Math.floor\<close> is \<open>\<lfloor>_\<rfloor>\<close>.
\<close>

definition Math_round :: "real \<Rightarrow> int" where
  "Math_round x = \<lfloor>x + 1 / 2\<rfloor>"

definition js_trunc :: "real \<Rightarrow> int" where
  "js_trunc x = (if 0 \<le> x then \<lfloor>x\<rfloor> else \<lceil>x\<rceil>)"

definition js_rem :: "real \<Rightarrow> real \<Rightarrow> real" where
  "js_rem x y = x - y * of_int (js_trunc (x / y))"

text \<open>
  \<^verbatim>\<open>parseInt(String(v), 10)\<close>: the decimal notation of \<open>v\<close> is read up to the
  first character that is not a digit, so the fraction is cut off. Below \<open>10\<^sup>-\<^sup>6\<close>
  \<^verbatim>\<open>String\<close> switches to exponent notation (\<^verbatim>\<open>"5.5e-13"\<close>) and
  \<^verbatim>\<open>parseInt\<close> reads the leading digit only. (Values of \<open>10\<^sup>2\<^sup>1\<close> and more, also
  printed with an exponent, do not occur: the argument is at most \<open>10000\<close>.)
\<close>

function leading_digit :: "real \<Rightarrow> int" where
  "leading_digit x = (if 0 < x \<and> x < 1 then leading_digit (10 * x) else \<lfloor>x\<rfloor>)"
  by pat_completeness auto
termination
proof (relation "measure (\<lambda>x. nat \<lceil>1 / x\<rceil>)")
  show "wf (measure (\<lambda>x::real. nat \<lceil>1 / x\<rceil>))" by simp
next
  fix x :: real
  assume a: "0 < x \<and> x < 1"
  define y where "y = 1 / x"
  have y1: "1 < y" using a by (simp add: y_def field_simps)
  then have k2: "2 \<le> \<lceil>y\<rceil>" by linarith
  then have k2': "2 \<le> (of_int \<lceil>y\<rceil> :: real)" by linarith
  have le: "y \<le> of_int \<lceil>y\<rceil>" by linarith
  have "1 / (10 * x) = y / 10" by (simp add: y_def)
  moreover have "y / 10 \<le> of_int \<lceil>y\<rceil> - 1" using le k2' by linarith
  ultimately have "\<lceil>1 / (10 * x)\<rceil> < \<lceil>y\<rceil>" by (simp add: ceiling_less_iff)
  then show "(10 * x, x) \<in> measure (\<lambda>x. nat \<lceil>1 / x\<rceil>)" using k2 a by (simp add: y_def)
qed

declare leading_digit.simps [simp del]

definition parseInt_String :: "real \<Rightarrow> int" where
  "parseInt_String v =
     (if 0 < v \<and> v < 1 / 1000000 then leading_digit v
      else if v < 0 \<and> - (1 / 1000000) < v then - leading_digit (- v)
      else js_trunc v)"

text \<open>
  \<^verbatim>\<open>n.toString(16)\<close> and the decimal notation of a template literal, for
  integers.
\<close>

fun digits16 :: "nat \<Rightarrow> string" where
  "digits16 n =
     (if n < 16 then [''0123456789abcdef'' ! n]
      else digits16 (n div 16) @ [''0123456789abcdef'' ! (n mod 16)])"

fun digits10 :: "nat \<Rightarrow> string" where
  "digits10 n =
     (if n < 10 then [''0123456789'' ! n]
      else digits10 (n div 10) @ [''0123456789'' ! (n mod 10)])"

definition toString16 :: "int \<Rightarrow> string" where
  "toString16 n = (if n < 0 then CHR ''-'' # digits16 (nat (- n)) else digits16 (nat n))"

definition toString10 :: "int \<Rightarrow> string" where
  "toString10 n = (if n < 0 then CHR ''-'' # digits10 (nat (- n)) else digits10 (nat n))"

text \<open>
  \<^verbatim>\<open>String.prototype.trim\<close> and \<^verbatim>\<open>toLowerCase\<close>. A character of the
  model is a code unit below 256; among these, \<^verbatim>\<open>trim\<close> removes the six ASCII
  white-space characters and the no-break space \<open>0xA0\<close>, and \<^verbatim>\<open>toLowerCase\<close> changes
  only what it maps to a letter of \<^verbatim>\<open>a\<close> to \<^verbatim>\<open>z\<close>, the letters \<^verbatim>\<open>A\<close> to
  \<^verbatim>\<open>Z\<close>.
\<close>

definition isWhitespace :: "char \<Rightarrow> bool" where
  "isWhitespace c =
     (c \<in> set [CHR '' '', CHR 0x09, CHR 0x0A, CHR 0x0B, CHR 0x0C, CHR 0x0D, CHR 0xA0])"

definition trim :: "string \<Rightarrow> string" where
  "trim str = rev (dropWhile isWhitespace (rev (dropWhile isWhitespace str)))"

definition lowerChar :: "char \<Rightarrow> char" where
  "lowerChar c =
     (let n = (of_char c :: nat) in if 65 \<le> n \<and> n \<le> 90 then char_of (n + 32) else c)"

definition toLowerCase :: "string \<Rightarrow> string" where
  "toLowerCase str = map lowerChar str"

section \<open>The colour library: \<^verbatim>\<open>TinyColor\<close>\<close>

text \<open>
  \<^verbatim>\<open>App.tsx\<close> imports the class \<^verbatim>\<open>TinyColor\<close> from the package
  \<^verbatim>\<open>@ctrl/tinycolor\<close>, which is not part of the repository's sources. The
  definitions of this section follow the functions of that package which the application
  calls (\<^verbatim>\<open>util.ts\<close>, \<^verbatim>\<open>conversion.ts\<close>, \<^verbatim>\<open>format-input.ts\<close>,
  \<^verbatim>\<open>index.ts\<close>), with their names. Scope of the model:
  \<^item> colours are opaque (alpha is 1 throughout), so the alpha channel is left out;
  \<^item> of the string notations only the hexadecimal ones without alpha (\<^verbatim>\<open>#rgb\<close>,
    \<^verbatim>\<open>#rrggbb\<close>, the \<^verbatim>\<open>#\<close> optional) are parsed: these are the strings the
    application stores and passes on. Colour names, \<^verbatim>\<open>transparent\<close>, the
    functional notations and hexadecimal notation with alpha are outside the model:
    on such a string the model does not say what the package does. What is proved below
    about the parsing of a string is proved of a string in hexadecimal notation, or of one
    that the predicate \<open>noMatcherAccepts\<close> shows to be refused by every notation of
    the package.
\<close>

text \<open>
  A channel value as the package receives it: a number, or a string ending in
  \<^verbatim>\<open>%\<close> (given by the number in front of the sign).
\<close>

datatype CssUnit = Num real | Pct real

definition clamp01 :: "real \<Rightarrow> real" where
  "clamp01 val = min 1 (max 0 val)"

text \<open>
  \<^verbatim>\<open>bound01(n, max)\<close> takes a value of the range \<open>[0, max]\<close> to \<open>[0, 1]\<close>.
  Its first test, \<^verbatim>\<open>isOnePointZero\<close>, asks for a string with a decimal point
  whose value is 1; no number and no percentage printed from a number is one.
\<close>

definition bound01 :: "CssUnit \<Rightarrow> real \<Rightarrow> real" where
  "bound01 n mx =
     (let v = (case n of Num x \<Rightarrow> x | Pct x \<Rightarrow> x);
          n1 = (if mx = 360 then v else min mx (max 0 v));
          n2 = (case n of Num _ \<Rightarrow> n1 | Pct _ \<Rightarrow> of_int (parseInt_String (n1 * mx)) / 100)
      in if \<bar>n2 - mx\<bar> < 1 / 1000000 then 1
         else if mx = 360 then (if n2 < 0 then js_rem n2 mx + mx else js_rem n2 mx) / mx
         else js_rem n2 mx / mx)"

definition convertToPercentage :: "CssUnit \<Rightarrow> CssUnit" where
  "convertToPercentage n = (case n of Num x \<Rightarrow> if x \<le> 1 then Pct (x * 100) else Num x | Pct x \<Rightarrow> Pct x)"

record RGB =
  rgb_r :: real
  rgb_g :: real
  rgb_b :: real

record HSL =
  hsl_h :: real
  hsl_s :: real
  hsl_l :: real

definition rgbToRgb :: "real \<Rightarrow> real \<Rightarrow> real \<Rightarrow> RGB" where
  "rgbToRgb r g b =
     \<lparr>rgb_r = bound01 (Num r) 255 * 255, rgb_g = bound01 (Num g) 255 * 255,
      rgb_b = bound01 (Num b) 255 * 255\<rparr>"

definition rgbToHsl :: "real \<Rightarrow> real \<Rightarrow> real \<Rightarrow> HSL" where
  "rgbToHsl r0 g0 b0 =
     (let r = bound01 (Num r0) 255; g = bound01 (Num g0) 255; b = bound01 (Num b0) 255;
          mx = max r (max g b); mn = min r (min g b);
          l = (mx + mn) / 2
      in if mx = mn then \<lparr>hsl_h = 0, hsl_s = 0, hsl_l = l\<rparr>
         else
           let d = mx - mn;
               s = (if l > 1 / 2 then d / (2 - mx - mn) else d / (mx + mn));
               h = (if mx = r then (g - b) / d + (if g < b then 6 else 0)
                    else if mx = g then (b - r) / d + 2
                    else (r - g) / d + 4)
           in \<lparr>hsl_h = h / 6, hsl_s = s, hsl_l = l\<rparr>)"

definition hue2rgb :: "real \<Rightarrow> real \<Rightarrow> real \<Rightarrow> real" where
  "hue2rgb p q t0 =
     (let t1 = (if t0 < 0 then t0 + 1 else t0);
          t = (if t1 > 1 then t1 - 1 else t1)
      in if t < 1 / 6 then p + (q - p) * (6 * t)
         else if t < 1 / 2 then q
         else if t < 2 / 3 then p + (q - p) * (2 / 3 - t) * 6
         else p)"

definition hslToRgb :: "CssUnit \<Rightarrow> CssUnit \<Rightarrow> CssUnit \<Rightarrow> RGB" where
  "hslToRgb h0 s0 l0 =
     (let h = bound01 h0 360; s = bound01 s0 100; l = bound01 l0 100
      in if s = 0 then \<lparr>rgb_r = l * 255, rgb_g = l * 255, rgb_b = l * 255\<rparr>
         else
           let q = (if l < 1 / 2 then l * (1 + s) else l + s - l * s);
               p = 2 * l - q
           in \<lparr>rgb_r = hue2rgb p q (h + 1 / 3) * 255, rgb_g = hue2rgb p q h * 255,
               rgb_b = hue2rgb p q (h - 1 / 3) * 255\<rparr>)"

text \<open>
  \<^verbatim>\<open>stringInputToObject\<close>: the string is trimmed and put in lower case; the empty
  string is refused; the matchers \<^verbatim>\<open>/^#?([0-9a-fA-F]{6})$/\<close> and
  \<^verbatim>\<open>/^#?([0-9a-fA-F]{3})$/\<close> give the three channels (a digit of the short notation
  counts twice). The result \<open>None\<close> is the \<^verbatim>\<open>false\<close> of the package.
\<close>

datatype ColorObj = RgbObj real real real | HslObj CssUnit CssUnit CssUnit

datatype ColorInput = Str string | Obj ColorObj

datatype ColorFormat = FormatHex | FormatHsl | FormatFalse

definition isHexDigit :: "char \<Rightarrow> bool" where
  "isHexDigit c = (c \<in> set ''0123456789abcdef'')"

definition hexValue :: "char \<Rightarrow> nat" where
  "hexValue c = length (takeWhile (\<lambda>d. d \<noteq> c) ''0123456789abcdef'')"

definition parseIntFromHex :: "string \<Rightarrow> nat" where
  "parseIntFromHex val = foldl (\<lambda>acc c. 16 * acc + hexValue c) 0 val"

definition stringInputToObject :: "string \<Rightarrow> ColorObj option" where
  "stringInputToObject color0 =
     (let color = toLowerCase (trim color0)
      in if length color = 0 then None
         else
           let body = (if hd color = CHR ''#'' then tl color else color)
           in if length body = 6 \<and> list_all isHexDigit body then
                Some (RgbObj (real (parseIntFromHex (take 2 body)))
                             (real (parseIntFromHex (take 2 (drop 2 body))))
                             (real (parseIntFromHex (take 2 (drop 4 body)))))
              else if length body = 3 \<and> list_all isHexDigit body then
                Some (RgbObj (real (parseIntFromHex [body ! 0, body ! 0]))
                             (real (parseIntFromHex [body ! 1, body ! 1]))
                             (real (parseIntFromHex [body ! 2, body ! 2])))
              else None)"

text \<open>
  Strings that no notation of the package accepts. The package looks a string up among
  the colour names (all of them words of letters only, as is \<^verbatim>\<open>transparent\<close>),
  then tries the functional notations, each of which needs one of the words
  \<^verbatim>\<open>rgb\<close>, \<^verbatim>\<open>hsl\<close>, \<^verbatim>\<open>hsv\<close>, \<^verbatim>\<open>cmyk\<close> somewhere in the string, and
  last the hexadecimal notations of 8, 6, 4 and 3 digits. So a string is refused when,
  trimmed and in lower case, it is empty, or it has a character that is not a letter,
  contains none of the four words, and is not 3, 4, 6 or 8 hexadecimal digits behind an
  optional \<^verbatim>\<open>#\<close>. (A word of letters only is refused too unless it is a colour name;
  the table of names is not modelled, so the predicate leaves such words out.)
\<close>

definition isLetter :: "char \<Rightarrow> bool" where
  "isLetter c = (c \<in> set ''abcdefghijklmnopqrstuvwxyz'')"

fun containsWord :: "string \<Rightarrow> string \<Rightarrow> bool" where
  "containsWord w [] = (w = [])"
| "containsWord w (c # cs) = (take (length w) (c # cs) = w \<or> containsWord w cs)"

definition noMatcherAccepts :: "string \<Rightarrow> bool" where
  "noMatcherAccepts color0 =
     (let color = toLowerCase (trim color0);
          body = (if color \<noteq> [] \<and> hd color = CHR ''#'' then tl color else color)
      in color = [] \<or>
         (\<not> list_all isLetter color \<and>
          \<not> containsWord ''rgb'' color \<and> \<not> containsWord ''hsl'' color \<and>
          \<not> containsWord ''hsv'' color \<and> \<not> containsWord ''cmyk'' color \<and>
          \<not> (list_all isHexDigit body \<and> length body \<in> set [3, 4, 6, 8])))"

text \<open>
  \<^verbatim>\<open>inputToRGB\<close>: a string is parsed first; an object with \<^verbatim>\<open>r, g, b\<close> goes
  through \<^verbatim>\<open>rgbToRgb\<close>, one with \<^verbatim>\<open>h, s, l\<close> through
  \<^verbatim>\<open>hslToRgb\<close>; anything else leaves the channels at 0 and \<^verbatim>\<open>ok\<close> false.
  Nothing is thrown. An \<open>RgbObj\<close> comes from a hexadecimal string here, which sets
  the format \<^verbatim>\<open>hex\<close>.
\<close>

record InputRGB =
  in_ok :: bool
  in_format :: ColorFormat
  in_r :: real
  in_g :: real
  in_b :: real

definition inputToRGB :: "ColorInput \<Rightarrow> InputRGB" where
  "inputToRGB color0 =
     (let color = (case color0 of Str str \<Rightarrow> stringInputToObject str | Obj ob \<Rightarrow> Some ob);
          rgb = (case color of
                   None \<Rightarrow> \<lparr>rgb_r = 0, rgb_g = 0, rgb_b = 0\<rparr>
                 | Some (RgbObj r g b) \<Rightarrow> rgbToRgb r g b
                 | Some (HslObj h s l) \<Rightarrow>
                     hslToRgb h (convertToPercentage s) (convertToPercentage l));
          ok = (color \<noteq> None);
          fmt = (case color of None \<Rightarrow> FormatFalse | Some (RgbObj _ _ _) \<Rightarrow> FormatHex
                 | Some (HslObj _ _ _) \<Rightarrow> FormatHsl)
      in \<lparr>in_ok = ok, in_format = fmt,
          in_r = min 255 (max (rgb_r rgb) 0),
          in_g = min 255 (max (rgb_g rgb) 0),
          in_b = min 255 (max (rgb_b rgb) 0)\<rparr>)"

text \<open>
  The class. Its constructor rounds a channel below 1 to 0 or 1 and otherwise keeps the
  channels as they were computed (not rounded to integers).
\<close>

record TinyColor =
  tc_r :: real
  tc_g :: real
  tc_b :: real
  format :: ColorFormat
  isValid :: bool

definition new_TinyColor :: "ColorInput \<Rightarrow> TinyColor" where
  "new_TinyColor color =
     (let rgb = inputToRGB color
      in \<lparr>tc_r = (if in_r rgb < 1 then of_int (Math_round (in_r rgb)) else in_r rgb),
          tc_g = (if in_g rgb < 1 then of_int (Math_round (in_g rgb)) else in_g rgb),
          tc_b = (if in_b rgb < 1 then of_int (Math_round (in_b rgb)) else in_b rgb),
          format = in_format rgb,
          isValid = in_ok rgb\<rparr>)"

definition hslInput :: "HSL \<Rightarrow> ColorInput" where
  "hslInput hsl = Obj (HslObj (Num (hsl_h hsl)) (Num (hsl_s hsl)) (Num (hsl_l hsl)))"

definition toHsl :: "TinyColor \<Rightarrow> HSL" where
  "toHsl c =
     (let hsl = rgbToHsl (tc_r c) (tc_g c) (tc_b c)
      in \<lparr>hsl_h = hsl_h hsl * 360, hsl_s = hsl_s hsl, hsl_l = hsl_l hsl\<rparr>)"

definition pad2 :: "string \<Rightarrow> string" where
  "pad2 c = (if length c = 1 then CHR ''0'' # c else c)"

definition rgbToHex :: "real \<Rightarrow> real \<Rightarrow> real \<Rightarrow> string" where
  "rgbToHex r g b =
     pad2 (toString16 (Math_round r)) @ pad2 (toString16 (Math_round g)) @
     pad2 (toString16 (Math_round b))"

definition toHexString :: "TinyColor \<Rightarrow> string" where
  "toHexString c = CHR ''#'' # rgbToHex (tc_r c) (tc_g c) (tc_b c)"

definition toRgbString :: "TinyColor \<Rightarrow> string" where
  "toRgbString c =
     ''rgb('' @ toString10 (Math_round (tc_r c)) @ '', '' @ toString10 (Math_round (tc_g c)) @
     '', '' @ toString10 (Math_round (tc_b c)) @ '')''"

definition hslRounded :: "TinyColor \<Rightarrow> int \<times> int \<times> int" where
  "hslRounded c =
     (let hsl = rgbToHsl (tc_r c) (tc_g c) (tc_b c)
      in (Math_round (hsl_h hsl * 360), Math_round (hsl_s hsl * 100),
          Math_round (hsl_l hsl * 100)))"

definition toHslString :: "TinyColor \<Rightarrow> string" where
  "toHslString c =
     (case hslRounded c of (h, s, l) \<Rightarrow>
        ''hsl('' @ toString10 h @ '', '' @ toString10 s @ ''%, '' @ toString10 l @ ''%)'')"

record HSV =
  hsv_h :: real
  hsv_s :: real
  hsv_v :: real

definition rgbToHsv :: "real \<Rightarrow> real \<Rightarrow> real \<Rightarrow> HSV" where
  "rgbToHsv r0 g0 b0 =
     (let r = bound01 (Num r0) 255; g = bound01 (Num g0) 255; b = bound01 (Num b0) 255;
          mx = max r (max g b); mn = min r (min g b);
          v = mx; d = mx - mn;
          s = (if mx = 0 then 0 else d / mx)
      in if mx = mn then \<lparr>hsv_h = 0, hsv_s = s, hsv_v = v\<rparr>
         else
           let h = (if mx = r then (g - b) / d + (if g < b then 6 else 0)
                    else if mx = g then (b - r) / d + 2
                    else (r - g) / d + 4)
           in \<lparr>hsv_h = h / 6, hsv_s = s, hsv_v = v\<rparr>)"

definition toHsvString :: "TinyColor \<Rightarrow> string" where
  "toHsvString c =
     (let hsv0 = rgbToHsv (tc_r c) (tc_g c) (tc_b c)
      in ''hsv('' @ toString10 (Math_round (hsv_h hsv0 * 360)) @ '', '' @
         toString10 (Math_round (hsv_s hsv0 * 100)) @ ''%, '' @
         toString10 (Math_round (hsv_v hsv0 * 100)) @ ''%)'')"

definition rgbToCmyk :: "real \<Rightarrow> real \<Rightarrow> real \<Rightarrow> int \<times> int \<times> int \<times> int" where
  "rgbToCmyk r g b =
     (let c = 1 - r / 255; m = 1 - g / 255; y = 1 - b / 255;
          k = min c (min m y)
      in if k = 1 then (Math_round 0, Math_round 0, Math_round 0, Math_round (k * 100))
         else (Math_round ((c - k) / (1 - k) * 100), Math_round ((m - k) / (1 - k) * 100),
               Math_round ((y - k) / (1 - k) * 100), Math_round (k * 100)))"

definition toCmykString :: "TinyColor \<Rightarrow> string" where
  "toCmykString col =
     (case rgbToCmyk (tc_r col) (tc_g col) (tc_b col) of (c, m, y, k) \<Rightarrow>
        ''cmyk('' @ toString10 c @ '', '' @ toString10 m @ '', '' @ toString10 y @ '', '' @
        toString10 k @ '')'')"

text \<open>
  \<^verbatim>\<open>clone()\<close> is \<^verbatim>\<open>new TinyColor(this.toString())\<close>: the colour is printed in
  its own format and parsed again. A colour made from a hexadecimal string prints as
  \<^verbatim>\<open>#rrggbb\<close>, and so does one that was not parsed (format \<^verbatim>\<open>false\<close>). A colour
  made from an HSL object prints as \<^verbatim>\<open>hsl(h, s%, l%)\<close> with the three numbers
  rounded to integers; the \<^verbatim>\<open>hsl\<close> matcher reads them back as the hue \<open>h\<close> and the
  percentages \<open>s%\<close> and \<open>l%\<close>, which is the object given to the constructor here.
\<close>

definition clone :: "TinyColor \<Rightarrow> TinyColor" where
  "clone c =
     (case format c of
        FormatHsl \<Rightarrow>
          (case hslRounded c of (h, s, l) \<Rightarrow>
             new_TinyColor (Obj (HslObj (Num (of_int h)) (Pct (of_int s)) (Pct (of_int l)))))
      | _ \<Rightarrow> new_TinyColor (Str (toHexString c)))"

definition lighten :: "TinyColor \<Rightarrow> real \<Rightarrow> TinyColor" where
  "lighten c amount =
     (let hsl0 = toHsl c;
          hsl1 = hsl0\<lparr>hsl_l := hsl_l hsl0 + amount / 100\<rparr>;
          hsl2 = hsl1\<lparr>hsl_l := clamp01 (hsl_l hsl1)\<rparr>
      in new_TinyColor (hslInput hsl2))"

definition spin :: "TinyColor \<Rightarrow> real \<Rightarrow> TinyColor" where
  "spin c amount =
     (let hsl0 = toHsl c;
          hue0 = js_rem (hsl_h hsl0 + amount) 360;
          hsl1 = hsl0\<lparr>hsl_h := (if hue0 < 0 then 360 + hue0 else hue0)\<rparr>
      in new_TinyColor (hslInput hsl1))"

section \<open>The palette editor (\<^verbatim>\<open>src/App.tsx\<close>)\<close>

record ColorData =
  hex :: string
  name :: string
  rgb :: string
  hsl :: string
  hsv :: string
  cmyk :: string

text \<open>
  \<^verbatim>\<open>generateColorName\<close> (lines 15 to 30). Reading an array out of range gives
  \<^verbatim>\<open>undefined\<close>, which a template literal prints as that word.
\<close>

definition hueNames :: "string list" where
  "hueNames = [''Red'', ''Orange'', ''Yellow'', ''Green'', ''Blue'', ''Purple'', ''Pink'']"

definition arrayGet :: "string list \<Rightarrow> int \<Rightarrow> string" where
  "arrayGet xs i = (if 0 \<le> i \<and> i < int (length xs) then xs ! nat i else ''undefined'')"

definition hueIndex :: "real \<Rightarrow> int" where
  "hueIndex h = \<lfloor>js_rem h 360 / 60\<rfloor>"

definition saturationWord :: "real \<Rightarrow> string" where
  "saturationWord s = (if s > 1 / 2 then ''Vibrant'' else ''Muted'')"

definition lightnessWord :: "real \<Rightarrow> string" where
  "lightnessWord l = (if l > 7 / 10 then ''Light'' else if l < 3 / 10 then ''Dark'' else [])"

definition generateColorName :: "TinyColor \<Rightarrow> string" where
  "generateColorName color =
     (let hsl0 = toHsl color;
          saturation0 = saturationWord (hsl_s hsl0);
          lightness0 = lightnessWord (hsl_l hsl0)
      in trim (lightness0 @ '' '' @ saturation0 @ '' '' @
               arrayGet hueNames (hueIndex (hsl_h hsl0))))"

text \<open>
  The record literal that lines 39 to 46, 67 to 74 and 84 to 91 each write out: the
  entry of a colour.
\<close>

definition colorData :: "TinyColor \<Rightarrow> ColorData" where
  "colorData color =
     \<lparr>hex = toHexString color, name = generateColorName color, rgb = toRgbString color,
      hsl = toHslString color, hsv = toHsvString color, cmyk = toCmykString color\<rparr>"

text \<open>
  The initial palette (lines 33 to 48). \<open>random\<close> is the value of
  \<^verbatim>\<open>Math.random()\<close>, a number of \<open>[0, 1)\<close>.
\<close>

definition initialBase :: "real \<Rightarrow> TinyColor" where
  "initialBase random =
     new_TinyColor (hslInput \<lparr>hsl_h = random * 360, hsl_s = 7 / 10, hsl_l = 1 / 2\<rparr>)"

definition initialPalette :: "real \<Rightarrow> ColorData list" where
  "initialPalette random =
     (let base = initialBase random
      in map (\<lambda>i. let color = spin (clone base) (real i * 30) in colorData color) [0..<5])"

text \<open>
  \<^verbatim>\<open>adjustPalette\<close> (lines 58 to 77). The three sliders (lines 166 to 213) are range
  inputs with integer bounds and the default step 1, so the adjustments are integers.
\<close>

record Adjustments =
  hue :: int
  saturation :: int
  brightness :: int

definition adjustHsl :: "Adjustments \<Rightarrow> HSL \<Rightarrow> HSL" where
  "adjustHsl adjustments hsl0 =
     (let hsl1 = hsl0\<lparr>hsl_h := js_rem (hsl_h hsl0 + of_int (hue adjustments)) 360\<rparr>;
          hsl2 = hsl1\<lparr>hsl_s := max 0 (min 1 (hsl_s hsl1 + of_int (saturation adjustments) / 100))\<rparr>;
          hsl3 = hsl2\<lparr>hsl_l := max 0 (min 1 (hsl_l hsl2 + of_int (brightness adjustments) / 100))\<rparr>
      in hsl3)"

definition adjustColor :: "Adjustments \<Rightarrow> ColorData \<Rightarrow> ColorData" where
  "adjustColor adjustments color =
     (let tiny = new_TinyColor (Str (hex color));
          hsl0 = adjustHsl adjustments (toHsl tiny);
          newColor = new_TinyColor (hslInput hsl0)
      in colorData newColor)"

definition adjustPalette :: "Adjustments \<Rightarrow> ColorData list \<Rightarrow> ColorData list" where
  "adjustPalette adjustments prev = map (adjustColor adjustments) prev"

text \<open>\<^verbatim>\<open>handleColorChange\<close> (lines 79 to 94) and \<^verbatim>\<open>handleNameChange\<close> (96 to 100).\<close>

definition handleColorChange :: "nat \<Rightarrow> string \<Rightarrow> ColorData list \<Rightarrow> ColorData list" where
  "handleColorChange index newColor prev =
     map (\<lambda>(i, color).
            if i \<noteq> index then color
            else let tiny = new_TinyColor (Str newColor) in colorData tiny)
         (zip [0..<length prev] prev)"

definition handleNameChange :: "nat \<Rightarrow> string \<Rightarrow> ColorData list \<Rightarrow> ColorData list" where
  "handleNameChange index name0 prev =
     map (\<lambda>(i, color). if i = index then color\<lparr>name := name0\<rparr> else color)
         (zip [0..<length prev] prev)"

text \<open>\<^verbatim>\<open>getShades\<close> (lines 109 to 120).\<close>

definition getShades :: "string \<Rightarrow> string list" where
  "getShades hex0 =
     (let base = new_TinyColor (Str hex0)
      in map (\<lambda>i. let factor = (real i - 2) * (2 / 10)
                  in toHexString (lighten (clone base) (factor * 50)))
             [0..<5])"

section \<open>Numbers, percentages and hues\<close>

lemma js_rem_small: "0 \<le> x \<Longrightarrow> x < y \<Longrightarrow> js_rem x y = x"
proof -
  assume a: "0 \<le> x" "x < y"
  then have "0 \<le> x / y" "x / y < 1" by (simp_all add: field_simps)
  then have "\<lfloor>x / y\<rfloor> = 0" by linarith
  with \<open>0 \<le> x / y\<close> show ?thesis by (simp add: js_rem_def js_trunc_def)
qed

lemma bound01_Num_255:
  "bound01 (Num x) 255 =
     (if 255 - min 255 (max 0 x) < 1 / 1000000 then 1 else min 255 (max 0 x) / 255)"
proof -
  define n where "n = min 255 (max 0 x)"
  have n: "0 \<le> n" "n \<le> 255" by (simp_all add: n_def)
  show ?thesis
  proof (cases "255 - n < 1 / 1000000")
    case True
    then have "\<bar>n - 255\<bar> < 1 / 1000000" using n by linarith
    then show ?thesis using True by (simp add: bound01_def Let_def n_def)
  next
    case False
    then have "\<not> \<bar>n - 255\<bar> < 1 / 1000000" using n by linarith
    moreover have "n < 255" using False n by linarith
    then have "js_rem n 255 = n" using n by (simp add: js_rem_small)
    ultimately show ?thesis using False by (simp add: bound01_def Let_def n_def)
  qed
qed

lemma bound01_Num_255_range: "0 \<le> bound01 (Num x) 255 \<and> bound01 (Num x) 255 \<le> 1"
proof -
  define n where "n = min 255 (max 0 x)"
  have n: "0 \<le> n" "n \<le> 255" by (simp_all add: n_def)
  then have "0 \<le> n / 255" "n / 255 \<le> 1" by simp_all
  then show ?thesis unfolding bound01_Num_255 n_def[symmetric] by simp
qed

lemma bound01_Num_255_nat: "n \<le> 255 \<Longrightarrow> bound01 (Num (real n)) 255 = real n / 255"
proof -
  assume a: "n \<le> 255"
  then have m: "min 255 (max 0 (real n)) = real n" by simp
  show ?thesis
  proof (cases "n = 255")
    case True then show ?thesis by (simp add: bound01_Num_255)
  next
    case False
    with a have "n \<le> 254" by simp
    then have "real n \<le> 254" by (metis of_nat_le_iff of_nat_numeral)
    then have "\<not> 255 - real n < 1 / 1000000" by simp
    then show ?thesis unfolding bound01_Num_255 m by simp
  qed
qed

text \<open>The hue formula shared by rgbToHsl and rgbToHsv, on any three numbers.\<close>

lemma hue_sector_range:
  fixes r g b :: real
  assumes "max r (max g b) \<noteq> min r (min g b)"
  defines "d \<equiv> max r (max g b) - min r (min g b)"
  defines "h \<equiv> (if max r (max g b) = r then (g - b) / d + (if g < b then 6 else 0)
                 else if max r (max g b) = g then (b - r) / d + 2
                 else (r - g) / d + 4)"
  shows "0 \<le> h \<and> h < 6"
proof -
  have dpos: "0 < d" using assms(1) unfolding d_def by (auto simp: max_def min_def split: if_splits)
  have gb: "\<bar>g - b\<bar> \<le> d" "\<bar>b - r\<bar> \<le> d" "\<bar>r - g\<bar> \<le> d"
    unfolding d_def by (auto simp: max_def min_def split: if_splits)
  have q: "- 1 \<le> (g - b) / d" "(g - b) / d \<le> 1" "- 1 \<le> (b - r) / d" "(b - r) / d \<le> 1"
          "- 1 \<le> (r - g) / d" "(r - g) / d \<le> 1"
    using dpos gb by (simp_all add: le_divide_eq divide_le_eq)
  have neg: "g < b \<Longrightarrow> (g - b) / d < 0" using dpos by (simp add: divide_less_0_iff)
  have nn: "\<not> g < b \<Longrightarrow> 0 \<le> (g - b) / d" using dpos by simp
  show ?thesis unfolding h_def using q neg nn by (auto split: if_splits)
qed

lemma rgbToHsl_hue_range: "0 \<le> hsl_h (rgbToHsl r g b) \<and> hsl_h (rgbToHsl r g b) < 1"
proof -
  define r1 where "r1 = bound01 (Num r) 255"
  define g1 where "g1 = bound01 (Num g) 255"
  define b1 where "b1 = bound01 (Num b) 255"
  show ?thesis
  proof (cases "max r1 (max g1 b1) = min r1 (min g1 b1)")
    case True
    then show ?thesis by (simp add: rgbToHsl_def Let_def r1_def g1_def b1_def)
  next
    case False
    define H where "H = (if max r1 (max g1 b1) = r1
        then (g1 - b1) / (max r1 (max g1 b1) - min r1 (min g1 b1)) + (if g1 < b1 then 6 else 0)
        else if max r1 (max g1 b1) = g1
        then (b1 - r1) / (max r1 (max g1 b1) - min r1 (min g1 b1)) + 2
        else (r1 - g1) / (max r1 (max g1 b1) - min r1 (min g1 b1)) + 4)"
    have eq: "hsl_h (rgbToHsl r g b) = H / 6"
      using False by (simp add: rgbToHsl_def Let_def r1_def g1_def b1_def H_def)
    have "0 \<le> H \<and> H < 6" unfolding H_def by (rule hue_sector_range[OF False])
    then show ?thesis by (simp add: eq)
  qed
qed

lemma toHsl_hue_range: "0 \<le> hsl_h (toHsl c) \<and> hsl_h (toHsl c) < 360"
  using rgbToHsl_hue_range[of "tc_r c" "tc_g c" "tc_b c"] by (simp add: toHsl_def Let_def)

lemma hueIndex_range: "0 \<le> h \<Longrightarrow> h < 360 \<Longrightarrow> 0 \<le> hueIndex h \<and> hueIndex h \<le> 5"
proof -
  assume a: "0 \<le> h" "h < 360"
  then have "js_rem h 360 = h" by (simp add: js_rem_small)
  moreover have "0 \<le> h / 60" "h / 60 < 6" using a by simp_all
  then have "0 \<le> \<lfloor>h / 60\<rfloor>" "\<lfloor>h / 60\<rfloor> < 6" by linarith+
  ultimately show ?thesis by (simp add: hueIndex_def)
qed

lemma leading_digit_range: "0 < x \<Longrightarrow> x < 1 \<Longrightarrow> 1 \<le> leading_digit x \<and> leading_digit x \<le> 9"
proof (induction x rule: leading_digit.induct)
  case (1 x)
  show ?case
  proof (cases "10 * x < 1")
    case True
    have "leading_digit x = leading_digit (10 * x)"
      using 1(2,3) by (subst leading_digit.simps) simp
    with 1 True show ?thesis by simp
  next
    case False
    then have "1 \<le> 10 * x" "10 * x < 10" using 1(3) by simp_all
    then have "1 \<le> \<lfloor>10 * x\<rfloor>" "\<lfloor>10 * x\<rfloor> \<le> 9" by linarith+
    moreover have "leading_digit x = \<lfloor>10 * x\<rfloor>"
      using 1(2,3) False by (subst leading_digit.simps, subst leading_digit.simps) simp
    ultimately show ?thesis by simp
  qed
qed

lemma parseInt_String_range:
  assumes "0 \<le> v" "v \<le> 10000"
  shows "0 \<le> parseInt_String v \<and> parseInt_String v \<le> 10000"
proof (cases "0 < v \<and> v < 1 / 1000000")
  case True
  then have "0 < v" "v < 1" by simp_all
  from leading_digit_range[OF this] True show ?thesis by (simp add: parseInt_String_def)
next
  case False
  have "0 \<le> \<lfloor>v\<rfloor>" "\<lfloor>v\<rfloor> \<le> 10000" using assms by linarith+
  moreover have "parseInt_String v = \<lfloor>v\<rfloor>"
    using False assms by (auto simp: parseInt_String_def js_trunc_def)
  ultimately show ?thesis by simp
qed

lemma parseInt_String_floor:
  assumes "v = 0 \<or> 1 / 1000000 \<le> v"
  shows "parseInt_String v = \<lfloor>v\<rfloor>"
  using assms by (auto simp: parseInt_String_def js_trunc_def)

lemma bound01_Pct_100:
  assumes "0 \<le> x" "x \<le> 100"
  shows "bound01 (Pct x) 100 = of_int (parseInt_String (x * 100)) / 10000"
proof -
  define k where "k = parseInt_String (x * 100)"
  have "0 \<le> x * 100" "x * 100 \<le> 10000" using assms by simp_all
  from parseInt_String_range[OF this] have k: "0 \<le> k" "k \<le> 10000" by (simp_all add: k_def)
  have n1: "min 100 (max 0 x) = x" using assms by simp
  show ?thesis
  proof (cases "k = 10000")
    case True
    then show ?thesis by (simp add: bound01_def Let_def n1 k_def[symmetric])
  next
    case False
    with k have "k \<le> 9999" by simp
    then have kr: "real_of_int k \<le> 9999" by linarith
    have k0: "0 \<le> real_of_int k" using k by simp
    have "\<not> \<bar>real_of_int k / 100 - 100\<bar> < 1 / 1000000" using kr by (simp add: abs_if field_simps)
    moreover have "js_rem (real_of_int k / 100) 100 = real_of_int k / 100"
      using kr k0 by (intro js_rem_small) simp_all
    ultimately show ?thesis by (simp add: bound01_def Let_def n1 k_def[symmetric])
  qed
qed

lemma normalised_percent:
  assumes "0 \<le> x" "x \<le> 1"
  shows "bound01 (convertToPercentage (Num x)) 100 = of_int (parseInt_String (x * 10000)) / 10000"
proof -
  have c: "convertToPercentage (Num x) = Pct (x * 100)" using assms by (simp add: convertToPercentage_def)
  have r: "0 \<le> x * 100" "x * 100 \<le> 100" using assms by simp_all
  have e: "x * 100 * 100 = x * 10000" by simp
  show ?thesis unfolding c bound01_Pct_100[OF r] e ..
qed

lemma normalised_percent_range:
  assumes "0 \<le> x" "x \<le> 1"
  shows "0 \<le> bound01 (convertToPercentage (Num x)) 100 \<and> bound01 (convertToPercentage (Num x)) 100 \<le> 1"
proof -
  have "0 \<le> x * 10000" "x * 10000 \<le> 10000" using assms by simp_all
  from parseInt_String_range[OF this] show ?thesis
    unfolding normalised_percent[OF assms] by simp
qed

lemma normalised_percent_0: "bound01 (convertToPercentage (Num 0)) 100 = 0"
  using normalised_percent[of 0] by (simp add: parseInt_String_floor)

lemma normalised_percent_1: "bound01 (convertToPercentage (Num 1)) 100 = 1"
  using normalised_percent[of 1] by (simp add: parseInt_String_floor)

lemma dropWhile_hd: "xs \<noteq> [] \<Longrightarrow> \<not> P (hd xs) \<Longrightarrow> dropWhile P xs = xs"
  by (cases xs) simp_all

lemma trim_keep:
  assumes "xs \<noteq> []" "\<not> isWhitespace (hd xs)" "\<not> isWhitespace (last xs)"
  shows "trim xs = xs"
proof -
  have 1: "dropWhile isWhitespace xs = xs" using assms(1,2) by (rule dropWhile_hd)
  have "rev xs \<noteq> []" "\<not> isWhitespace (hd (rev xs))" using assms(1,3) by (simp_all add: hd_rev)
  then have 2: "dropWhile isWhitespace (rev xs) = rev xs" by (rule dropWhile_hd)
  show ?thesis by (simp add: trim_def 1 2)
qed

lemma trim_space: "trim (CHR '' '' # xs) = trim xs"
  by (simp add: trim_def isWhitespace_def)

lemma arrayGet_hueNames:
  "arrayGet hueNames i \<in> set [''Red'', ''Orange'', ''Yellow'', ''Green'', ''Blue'', ''Purple'', ''Pink'', ''undefined'']"
proof (cases "0 \<le> i \<and> i < 7")
  case True
  then have "nat i < 7" by auto
  then have "nat i \<in> {0, 1, 2, 3, 4, 5, 6}" by auto
  then show ?thesis using True by (auto simp: arrayGet_def hueNames_def)
next
  case False
  then show ?thesis by (auto simp: arrayGet_def hueNames_def)
qed

lemma arrayGet_hueNames_six:
  assumes "0 \<le> i" "i \<le> 5"
  shows "arrayGet hueNames i \<in> set [''Red'', ''Orange'', ''Yellow'', ''Green'', ''Blue'', ''Purple'']"
proof -
  have "nat i < 6" using assms by simp
  then have "nat i \<in> {0, 1, 2, 3, 4, 5}" by auto
  then show ?thesis using assms by (auto simp: arrayGet_def hueNames_def)
qed

lemma generateColorName_eq:
  "generateColorName color =
     (if hsl_l (toHsl color) > 7 / 10 then ''Light ''
      else if hsl_l (toHsl color) < 3 / 10 then ''Dark '' else []) @
     (if hsl_s (toHsl color) > 1 / 2 then ''Vibrant'' else ''Muted'') @ '' '' @
     arrayGet hueNames (hueIndex (hsl_h (toHsl color)))"
proof -
  define w where "w = arrayGet hueNames (hueIndex (hsl_h (toHsl color)))"
  define sw where "sw = saturationWord (hsl_s (toHsl color))"
  define lw where "lw = lightnessWord (hsl_l (toHsl color))"
  have w: "w \<noteq> []" "\<not> isWhitespace (last w)"
    using arrayGet_hueNames[of "hueIndex (hsl_h (toHsl color))"]
    unfolding w_def[symmetric] by (auto simp: isWhitespace_def)
  have sw: "sw \<noteq> []" "\<not> isWhitespace (hd sw)"
    by (simp_all add: sw_def saturationWord_def isWhitespace_def)
  have lw: "lw = [] \<or> \<not> isWhitespace (hd lw)"
    by (simp add: lw_def lightnessWord_def isWhitespace_def)
  have inner: "trim (sw @ '' '' @ w) = sw @ '' '' @ w"
    using w sw by (intro trim_keep) simp_all
  have t: "trim (lw @ '' '' @ sw @ '' '' @ w) = (if lw = [] then [] else lw @ '' '') @ sw @ '' '' @ w"
  proof (cases "lw = []")
    case True
    then show ?thesis using inner by (simp add: trim_space)
  next
    case False
    with lw have "\<not> isWhitespace (hd (lw @ '' '' @ sw @ '' '' @ w))" by simp
    moreover have "\<not> isWhitespace (last (lw @ '' '' @ sw @ '' '' @ w))" using w by simp
    ultimately have "trim (lw @ '' '' @ sw @ '' '' @ w) = lw @ '' '' @ sw @ '' '' @ w"
      by (intro trim_keep) simp_all
    then show ?thesis using False by simp
  qed
  have g: "generateColorName color = trim (lw @ '' '' @ sw @ '' '' @ w)"
    by (simp add: generateColorName_def Let_def w_def sw_def lw_def)
  have l: "(if lw = [] then [] else lw @ '' '') =
      (if hsl_l (toHsl color) > 7 / 10 then ''Light ''
       else if hsl_l (toHsl color) < 3 / 10 then ''Dark '' else [])"
    by (simp add: lw_def lightnessWord_def)
  have s: "sw = (if hsl_s (toHsl color) > 1 / 2 then ''Vibrant'' else ''Muted'')"
    by (simp add: sw_def saturationWord_def)
  show ?thesis unfolding g t l unfolding s w_def ..
qed

section \<open>Hexadecimal notation\<close>

lemma hexdigit_props:
  assumes "i < 16"
  shows "hexValue (''0123456789abcdef'' ! i) = i"
    and "isHexDigit (''0123456789abcdef'' ! i)"
    and "\<not> isWhitespace (''0123456789abcdef'' ! i)"
    and "lowerChar (''0123456789abcdef'' ! i) = ''0123456789abcdef'' ! i"
    and "''0123456789abcdef'' ! i \<noteq> CHR ''#''"
proof -
  have v: "map hexValue ''0123456789abcdef'' = [0..<16]" by code_simp
  have len: "i < length ''0123456789abcdef''" using assms by simp
  have "hexValue (''0123456789abcdef'' ! i) = map hexValue ''0123456789abcdef'' ! i"
    by (rule nth_map[OF len, symmetric])
  then show "hexValue (''0123456789abcdef'' ! i) = i" using assms unfolding v by simp
  have a: "list_all (\<lambda>c. isHexDigit c \<and> \<not> isWhitespace c \<and> lowerChar c = c \<and> c \<noteq> CHR ''#'')
     ''0123456789abcdef''" by code_simp
  have "length ''0123456789abcdef'' = 16" by simp
  with a assms have "(\<lambda>c. isHexDigit c \<and> \<not> isWhitespace c \<and> lowerChar c = c \<and> c \<noteq> CHR ''#'')
     (''0123456789abcdef'' ! i)" unfolding list_all_length by metis
  then show "isHexDigit (''0123456789abcdef'' ! i)" "\<not> isWhitespace (''0123456789abcdef'' ! i)"
    "lowerChar (''0123456789abcdef'' ! i) = ''0123456789abcdef'' ! i"
    "''0123456789abcdef'' ! i \<noteq> CHR ''#''" by simp_all
qed

lemma Math_round_of_nat: "Math_round (real n) = int n"
  by (simp add: Math_round_def)

lemma Math_round_of_int: "Math_round (of_int k) = k"
  by (simp add: Math_round_def)

lemma pad2_toString16:
  assumes "n < 256"
  shows "pad2 (toString16 (int n)) =
    [''0123456789abcdef'' ! (n div 16), ''0123456789abcdef'' ! (n mod 16)]"
proof (cases "n < 16")
  case True
  then show ?thesis by (simp add: pad2_def toString16_def)
next
  case False
  then have "n div 16 < 16" using assms by simp
  then show ?thesis using False by (simp add: pad2_def toString16_def)
qed

lemma parseIntFromHex_pair:
  assumes "n < 256"
  shows "parseIntFromHex [''0123456789abcdef'' ! (n div 16), ''0123456789abcdef'' ! (n mod 16)] = n"
proof -
  have "n div 16 < 16" "n mod 16 < 16" using assms by simp_all
  then show ?thesis by (simp add: parseIntFromHex_def hexdigit_props(1))
qed

lemma stringInputToObject_hex6:
  assumes "r < 256" "g < 256" "b < 256"
  shows "stringInputToObject (CHR ''#'' # rgbToHex (real r) (real g) (real b)) =
     Some (RgbObj (real r) (real g) (real b))"
proof -
  define d where "d = (\<lambda>i::nat. ''0123456789abcdef'' ! i)"
  have i: "r div 16 < 16" "r mod 16 < 16" "g div 16 < 16" "g mod 16 < 16" "b div 16 < 16" "b mod 16 < 16"
    using assms by simp_all
  have hx: "rgbToHex (real r) (real g) (real b) =
      [d (r div 16), d (r mod 16), d (g div 16), d (g mod 16), d (b div 16), d (b mod 16)]"
    by (simp add: rgbToHex_def Math_round_of_nat pad2_toString16 assms d_def)
  let ?body = "[d (r div 16), d (r mod 16), d (g div 16), d (g mod 16), d (b div 16), d (b mod 16)]"
  have ws1: "\<not> isWhitespace (CHR ''#'')" by (simp add: isWhitespace_def)
  have ws2: "\<not> isWhitespace (d (b mod 16))" using i by (simp add: hexdigit_props d_def)
  note ws = ws1 ws2
  have tr: "trim (CHR ''#'' # ?body) = CHR ''#'' # ?body"
    using ws by (simp add: trim_def)
  have lc: "toLowerCase (CHR ''#'' # ?body) = CHR ''#'' # ?body"
    using i by (simp add: toLowerCase_def hexdigit_props d_def) (simp add: lowerChar_def)
  have hd: "list_all isHexDigit ?body" using i by (simp add: hexdigit_props d_def)
  have p: "parseIntFromHex [d (r div 16), d (r mod 16)] = r"
    "parseIntFromHex [d (g div 16), d (g mod 16)] = g"
    "parseIntFromHex [d (b div 16), d (b mod 16)] = b"
    using assms by (simp_all add: parseIntFromHex_pair d_def)
  show ?thesis
    unfolding hx stringInputToObject_def tr lc Let_def
    using hd p by simp
qed

lemma new_TinyColor_RgbObj:
  assumes "r \<le> 255" "g \<le> 255" "b \<le> 255"
  shows "new_TinyColor (Obj (RgbObj (real r) (real g) (real b))) =
     \<lparr>tc_r = real r, tc_g = real g, tc_b = real b, format = FormatHex, isValid = True\<rparr>"
    and "stringInputToObject str0 = Some (RgbObj (real r) (real g) (real b)) \<Longrightarrow>
     new_TinyColor (Str str0) =
     \<lparr>tc_r = real r, tc_g = real g, tc_b = real b, format = FormatHex, isValid = True\<rparr>"
proof -
  have z: "real_of_int (Math_round (real n)) = real n" for n
    unfolding Math_round_of_nat by simp
  have m: "min 255 (max (real n) 0) = real n" if "n \<le> 255" for n using that by simp
  have k: "bound01 (Num (real n)) 255 * 255 = real n" if "n \<le> 255" for n
    using that by (simp add: bound01_Num_255_nat)
  show "new_TinyColor (Obj (RgbObj (real r) (real g) (real b))) =
     \<lparr>tc_r = real r, tc_g = real g, tc_b = real b, format = FormatHex, isValid = True\<rparr>"
    using assms by (simp add: new_TinyColor_def inputToRGB_def rgbToRgb_def Let_def k m z Math_round_def)
  show "stringInputToObject str0 = Some (RgbObj (real r) (real g) (real b)) \<Longrightarrow>
     new_TinyColor (Str str0) =
     \<lparr>tc_r = real r, tc_g = real g, tc_b = real b, format = FormatHex, isValid = True\<rparr>"
    using assms by (simp add: new_TinyColor_def inputToRGB_def rgbToRgb_def Let_def k m z Math_round_def)
qed

lemma isHexDigit_hexValue:
  assumes "isHexDigit c"
  shows "hexValue c < 16"
proof -
  have a: "list_all (\<lambda>c. hexValue c < 16) ''0123456789abcdef''" by code_simp
  have "c \<in> set ''0123456789abcdef''" using assms by (simp only: isHexDigit_def)
  with a show ?thesis unfolding list_all_iff by blast
qed

lemma parseIntFromHex_le:
  assumes "isHexDigit a" "isHexDigit b"
  shows "parseIntFromHex [a, b] \<le> 255"
  using isHexDigit_hexValue[OF assms(1)] isHexDigit_hexValue[OF assms(2)]
  by (simp add: parseIntFromHex_def)

lemma list_of_length_3: "length xs = 3 \<Longrightarrow> \<exists>a0 a1 a2. xs = [a0, a1, a2]"
  by (auto simp: length_Suc_conv eval_nat_numeral)

lemma list_of_length_6: "length xs = 6 \<Longrightarrow> \<exists>a0 a1 a2 a3 a4 a5. xs = [a0, a1, a2, a3, a4, a5]"
  by (auto simp: length_Suc_conv eval_nat_numeral)

lemma stringInputToObject_Some:
  assumes "stringInputToObject str0 = Some ob"
  shows "\<exists>R G B. R \<le> 255 \<and> G \<le> 255 \<and> B \<le> 255 \<and> ob = RgbObj (real R) (real G) (real B)"
proof -
  define color where "color = toLowerCase (trim str0)"
  define body where "body = (if hd color = CHR ''#'' then tl color else color)"
  define o6 where "o6 = RgbObj (real (parseIntFromHex (take 2 body)))
     (real (parseIntFromHex (take 2 (drop 2 body)))) (real (parseIntFromHex (take 2 (drop 4 body))))"
  define o3 where "o3 = RgbObj (real (parseIntFromHex [body ! 0, body ! 0]))
     (real (parseIntFromHex [body ! 1, body ! 1])) (real (parseIntFromHex [body ! 2, body ! 2]))"
  have s: "stringInputToObject str0 =
      (if length color = 0 then None
       else if length body = 6 \<and> list_all isHexDigit body then Some o6
       else if length body = 3 \<and> list_all isHexDigit body then Some o3 else None)"
    unfolding stringInputToObject_def Let_def color_def body_def o6_def o3_def ..
  consider (six) "length body = 6" "list_all isHexDigit body" "ob = o6"
    | (three) "length body = 3" "list_all isHexDigit body" "ob = o3"
  proof (cases "length color = 0")
    case True
    have "stringInputToObject str0 = None" unfolding s using True by simp
    with assms show ?thesis by simp
  next
    case ne: False
    show ?thesis
    proof (cases "length body = 6 \<and> list_all isHexDigit body")
      case True
      have "stringInputToObject str0 = Some o6" unfolding s using ne True by simp
      with assms have "ob = o6" by simp
      with True six show ?thesis by blast
    next
      case n6: False
      show ?thesis
      proof (cases "length body = 3 \<and> list_all isHexDigit body")
        case True
        have "stringInputToObject str0 = Some o3" unfolding s using ne n6 True by simp
        with assms have "ob = o3" by simp
        with True three show ?thesis by blast
      next
        case False
        have "stringInputToObject str0 = None" unfolding s using ne n6 False by simp
        with assms show ?thesis by simp
      qed
    qed
  qed
  then show ?thesis
  proof cases
    case six
    from list_of_length_6[OF six(1)] obtain a0 a1 a2 a3 a4 a5 where b: "body = [a0, a1, a2, a3, a4, a5]"
      by blast
    with six(2) have h: "isHexDigit a0" "isHexDigit a1" "isHexDigit a2" "isHexDigit a3"
      "isHexDigit a4" "isHexDigit a5" by simp_all
    have e: "ob = RgbObj (real (parseIntFromHex [a0, a1])) (real (parseIntFromHex [a2, a3]))
        (real (parseIntFromHex [a4, a5]))" unfolding six(3) o6_def b by simp
    note le = parseIntFromHex_le[OF h(1) h(2)] parseIntFromHex_le[OF h(3) h(4)]
      parseIntFromHex_le[OF h(5) h(6)]
    show ?thesis
      by (rule exI[of _ "parseIntFromHex [a0, a1]"], rule exI[of _ "parseIntFromHex [a2, a3]"],
          rule exI[of _ "parseIntFromHex [a4, a5]"]) (intro conjI le e)
  next
    case three
    from list_of_length_3[OF three(1)] obtain a0 a1 a2 where b: "body = [a0, a1, a2]" by blast
    with three(2) have h: "isHexDigit a0" "isHexDigit a1" "isHexDigit a2" by simp_all
    have e: "ob = RgbObj (real (parseIntFromHex [a0, a0])) (real (parseIntFromHex [a1, a1]))
        (real (parseIntFromHex [a2, a2]))" unfolding three(3) o3_def b by simp
    note le = parseIntFromHex_le[OF h(1) h(1)] parseIntFromHex_le[OF h(2) h(2)]
      parseIntFromHex_le[OF h(3) h(3)]
    show ?thesis
      by (rule exI[of _ "parseIntFromHex [a0, a0]"], rule exI[of _ "parseIntFromHex [a1, a1]"],
          rule exI[of _ "parseIntFromHex [a2, a2]"]) (intro conjI le e)
  qed
qed

text \<open>Every string gives a colour with whole channels: the one it denotes in hexadecimal notation, or black.\<close>

lemma new_TinyColor_Str:
  "\<exists>R G B f v. R \<le> 255 \<and> G \<le> 255 \<and> B \<le> 255 \<and>
     new_TinyColor (Str str0) = \<lparr>tc_r = real R, tc_g = real G, tc_b = real B, format = f, isValid = v\<rparr> \<and>
     (stringInputToObject str0 \<noteq> None \<longrightarrow> f = FormatHex \<and> v)"
proof (cases "stringInputToObject str0")
  case None
  have "new_TinyColor (Str str0) =
      \<lparr>tc_r = real 0, tc_g = real 0, tc_b = real 0, format = FormatFalse, isValid = False\<rparr>"
    using None by (simp add: new_TinyColor_def inputToRGB_def Let_def Math_round_def)
  then show ?thesis using None by (metis zero_le)
next
  case (Some ob)
  from stringInputToObject_Some[OF Some] obtain R G B where
    r: "R \<le> 255" "G \<le> 255" "B \<le> 255" "ob = RgbObj (real R) (real G) (real B)" by blast
  from new_TinyColor_RgbObj(2)[OF r(1-3), of str0] Some r(4)
  have "new_TinyColor (Str str0) =
      \<lparr>tc_r = real R, tc_g = real G, tc_b = real B, format = FormatHex, isValid = True\<rparr>" by simp
  then show ?thesis using r by blast
qed

lemma toHexString_rounded:
  assumes "Math_round (tc_r c) = int R" "Math_round (tc_g c) = int G" "Math_round (tc_b c) = int B"
  shows "toHexString c = CHR ''#'' # rgbToHex (real R) (real G) (real B)"
  using assms by (simp add: toHexString_def rgbToHex_def Math_round_of_nat)

text \<open>Printing a colour in hexadecimal notation and parsing the string gives the rounded channels.\<close>

lemma stored_hex:
  assumes "Math_round (tc_r c) = int R" "Math_round (tc_g c) = int G" "Math_round (tc_b c) = int B"
    and "R \<le> 255" "G \<le> 255" "B \<le> 255"
  shows "new_TinyColor (Str (toHexString c)) =
     \<lparr>tc_r = real R, tc_g = real G, tc_b = real B, format = FormatHex, isValid = True\<rparr>"
proof -
  have lt: "R < 256" "G < 256" "B < 256" using assms(4-6) by simp_all
  show ?thesis
    unfolding toHexString_rounded[OF assms(1-3)]
    by (rule new_TinyColor_RgbObj(2)[OF assms(4-6) stringInputToObject_hex6[OF lt]])
qed

lemma fixed_channel_range:
  fixes y :: real
  defines "z \<equiv> (if min 255 (max y 0) < 1 then of_int (Math_round (min 255 (max y 0))) else min 255 (max y 0))"
  shows "0 \<le> z" "z \<le> 255" "0 \<le> Math_round z" "Math_round z \<le> 255"
proof -
  define w where "w = min 255 (max y 0)"
  have w: "0 \<le> w" "w \<le> 255" by (simp_all add: w_def)
  have rw: "0 \<le> Math_round w" "w < 1 \<Longrightarrow> Math_round w \<le> 1"
    using w unfolding Math_round_def by linarith+
  show z0: "0 \<le> z" and z1: "z \<le> 255"
    unfolding z_def w_def[symmetric] using w rw by (auto split: if_splits)
  show "0 \<le> Math_round z" "Math_round z \<le> 255"
    using z0 z1 unfolding Math_round_def by linarith+
qed

section \<open>The operations of the editor, unfolded\<close>

lemma upt_5: "[0..<5] = [0, 1, 2, 3, 4]"
  by code_simp

lemma getShades_offsets:
  "getShades hex0 =
     map (\<lambda>d. toHexString (lighten (clone (new_TinyColor (Str hex0))) d)) [- 20, - 10, 0, 10, 20]"
  by (simp add: getShades_def Let_def upt_5)

lemma handleColorChange_update:
  "handleColorChange index newColor prev = prev[index := colorData (new_TinyColor (Str newColor))]"
  by (rule nth_equalityI) (simp_all add: handleColorChange_def Let_def nth_list_update)

lemma handleNameChange_update:
  "handleNameChange index name0 prev = (if index < length prev then prev[index := (prev ! index)\<lparr>name := name0\<rparr>] else prev)"
  by (rule nth_equalityI) (auto simp add: handleNameChange_def nth_list_update)

lemma hex_adjustColor:
  "hex (adjustColor adjustments color) =
     toHexString (new_TinyColor (hslInput (adjustHsl adjustments (toHsl (new_TinyColor (Str (hex color)))))))"
  by (simp add: adjustColor_def Let_def colorData_def)

lemma noMatcherAccepts_None: "noMatcherAccepts color0 \<Longrightarrow> stringInputToObject color0 = None"
  by (auto simp: noMatcherAccepts_def stringInputToObject_def Let_def split: if_splits)

lemma new_TinyColor_rejected:
  "stringInputToObject color0 = None \<Longrightarrow>
     new_TinyColor (Str color0) = \<lparr>tc_r = 0, tc_g = 0, tc_b = 0, format = FormatFalse, isValid = False\<rparr>"
  by (simp add: new_TinyColor_def inputToRGB_def Let_def Math_round_def)

lemma colorData_black:
  "colorData \<lparr>tc_r = 0, tc_g = 0, tc_b = 0, format = FormatFalse, isValid = False\<rparr> =
     \<lparr>hex = ''#000000'', name = ''Dark Muted Red'', rgb = ''rgb(0, 0, 0)'',
      hsl = ''hsl(0, 0%, 0%)'', hsv = ''hsv(0, 0%, 0%)'', cmyk = ''cmyk(0, 0, 0, 100)''\<rparr>"
proof -
  let ?b = "\<lparr>tc_r = 0, tc_g = 0, tc_b = 0, format = FormatFalse, isValid = False\<rparr>"
  have "toHexString ?b = ''#000000''" by code_simp
  moreover have "generateColorName ?b = ''Dark Muted Red''" by code_simp
  moreover have "toRgbString ?b = ''rgb(0, 0, 0)''" by code_simp
  moreover have "toHslString ?b = ''hsl(0, 0%, 0%)''" by code_simp
  moreover have "toHsvString ?b = ''hsv(0, 0%, 0%)''" by code_simp
  moreover have "toCmykString ?b = ''cmyk(0, 0, 0, 100)''" by code_simp
  ultimately show ?thesis by (simp add: colorData_def)
qed

lemma shades_black:
  "map (\<lambda>d. toHexString (lighten (clone \<lparr>tc_r = 0, tc_g = 0, tc_b = 0, format = FormatFalse, isValid = False\<rparr>) d))
     [- 20, - 10, 0, 10, 20] = [''#000000'', ''#000000'', ''#000000'', ''#1a1a1a'', ''#333333'']"
proof -
  let ?b = "\<lparr>tc_r = 0, tc_g = 0, tc_b = 0, format = FormatFalse, isValid = False\<rparr>"
  let ?c = "\<lparr>tc_r = 0, tc_g = 0, tc_b = 0, format = FormatHex, isValid = True\<rparr>"
  have c: "clone ?b = ?c" by code_simp
  have "toHexString (lighten ?c (- 20)) = ''#000000''" by code_simp
  moreover have "toHexString (lighten ?c (- 10)) = ''#000000''" by code_simp
  moreover have "toHexString (lighten ?c 0) = ''#000000''" by code_simp
  moreover have "toHexString (lighten ?c 10) = ''#1a1a1a''" by code_simp
  moreover have "toHexString (lighten ?c 20) = ''#333333''" by code_simp
  ultimately show ?thesis by (simp add: c)
qed

section \<open>From RGB to HSL and back\<close>

text \<open>hue2rgb is affine in its two levels: p + (q - p) * w, with a weight w that depends on the hue only.\<close>

lemma hue2rgb_affine: "hue2rgb p q t = p + (q - p) * hue2rgb 0 1 t"
  by (auto simp: hue2rgb_def Let_def field_simps)

lemma hue2rgb_weight:
  "0 \<le> t \<Longrightarrow> t \<le> 1 / 6 \<Longrightarrow> hue2rgb 0 1 t = 6 * t"
  "1 / 6 \<le> t \<Longrightarrow> t \<le> 1 / 2 \<Longrightarrow> hue2rgb 0 1 t = 1"
  "1 / 2 \<le> t \<Longrightarrow> t \<le> 2 / 3 \<Longrightarrow> hue2rgb 0 1 t = 4 - 6 * t"
  "2 / 3 \<le> t \<Longrightarrow> t \<le> 1 \<Longrightarrow> hue2rgb 0 1 t = 0"
  "t < 0 \<Longrightarrow> - 1 \<le> t \<Longrightarrow> hue2rgb 0 1 t = hue2rgb 0 1 (t + 1)"
  "1 < t \<Longrightarrow> t \<le> 2 \<Longrightarrow> hue2rgb 0 1 t = hue2rgb 0 1 (t - 1)"
  by (auto simp: hue2rgb_def Let_def diff_divide_distrib add_divide_distrib)

lemma hue2rgb_weight_range: "- 1 \<le> t \<Longrightarrow> t \<le> 2 \<Longrightarrow> 0 \<le> hue2rgb 0 1 t \<and> hue2rgb 0 1 t \<le> 1"
  by (auto simp: hue2rgb_def Let_def diff_divide_distrib add_divide_distrib)

text \<open>
  The weights at the hue that the sector formula computes from three channels give the
  channels back.
\<close>

lemma hue2rgb_inverse:
  fixes r g b :: real
  assumes ne: "max r (max g b) \<noteq> min r (min g b)"
  defines "mx \<equiv> max r (max g b)" and "mn \<equiv> min r (min g b)"
  defines "H \<equiv> (if max r (max g b) = r
                 then (g - b) / (max r (max g b) - min r (min g b)) + (if g < b then 6 else 0)
                 else if max r (max g b) = g
                 then (b - r) / (max r (max g b) - min r (min g b)) + 2
                 else (r - g) / (max r (max g b) - min r (min g b)) + 4)"
  shows "hue2rgb 0 1 (H / 6 + 1 / 3) = (r - mn) / (mx - mn)"
    and "hue2rgb 0 1 (H / 6) = (g - mn) / (mx - mn)"
    and "hue2rgb 0 1 (H / 6 - 1 / 3) = (b - mn) / (mx - mn)"
proof -
  define d where "d = mx - mn"
  have dpos: "0 < d" using ne unfolding d_def mx_def mn_def by (auto simp: max_def min_def split: if_splits)
  have neq: "r \<noteq> g \<or> g \<noteq> b" using ne by auto
  consider (rgb) "b \<le> g" "g \<le> r" "b < r"
    | (rbg) "g < b" "b \<le> r"
    | (grb) "r < g" "b \<le> r"
    | (gbr) "r < g" "r < b" "b \<le> g"
    | (bgr) "g < b" "r \<le> g"
    | (brg) "r < b" "g < r"
    using neq by atomize_elim linarith
  then have "hue2rgb 0 1 (H / 6 + 1 / 3) = (r - mn) / d \<and> hue2rgb 0 1 (H / 6) = (g - mn) / d \<and>
      hue2rgb 0 1 (H / 6 - 1 / 3) = (b - mn) / d"
  proof cases
    case rgb
    then have m: "mx = r" "mn = b" by (simp_all add: mx_def mn_def)
    define u where "u = (g - b) / d"
    have u: "0 \<le> u" "u \<le> 1" using rgb dpos m by (simp_all add: u_def d_def)
    have H: "H = u" using rgb m by (simp add: H_def mx_def[symmetric] mn_def[symmetric] u_def d_def)
    have w1: "hue2rgb 0 1 (u / 6 + 1 / 3) = 1"
      using u by (cases "u = 1") (auto simp: hue2rgb_def Let_def diff_divide_distrib add_divide_distrib)
    have w2: "hue2rgb 0 1 (u / 6) = u"
      using u by (cases "u = 1") (auto simp: hue2rgb_def Let_def diff_divide_distrib add_divide_distrib)
    have w3: "hue2rgb 0 1 (u / 6 - 1 / 3) = 0"
      using u by (auto simp: hue2rgb_def Let_def diff_divide_distrib add_divide_distrib)
    show ?thesis unfolding H w1 w2 w3 using m dpos by (simp add: u_def d_def)
  next
    case rbg
    then have m: "mx = r" "mn = g" by (simp_all add: mx_def mn_def)
    define u where "u = (b - g) / d"
    have u: "0 < u" "u \<le> 1" using rbg dpos m by (simp_all add: u_def d_def)
    have "(g - b) / d = - u" by (simp add: u_def minus_divide_left)
    then have H: "H = 6 - u" using rbg m by (simp add: H_def mx_def[symmetric] mn_def[symmetric] d_def)
    have w1: "hue2rgb 0 1 ((6 - u) / 6 + 1 / 3) = 1"
      using u by (auto simp: hue2rgb_def Let_def diff_divide_distrib add_divide_distrib)
    have w2: "hue2rgb 0 1 ((6 - u) / 6) = 0"
      using u by (auto simp: hue2rgb_def Let_def diff_divide_distrib add_divide_distrib)
    have w3: "hue2rgb 0 1 ((6 - u) / 6 - 1 / 3) = u"
      using u by (auto simp: hue2rgb_def Let_def diff_divide_distrib add_divide_distrib)
    show ?thesis unfolding H w1 w2 w3 using m dpos by (simp add: u_def d_def)
  next
    case grb
    then have m: "mx = g" "mn = b" by (simp_all add: mx_def mn_def)
    define u where "u = (r - b) / d"
    have u: "0 \<le> u" "u < 1" using grb dpos m by (simp_all add: u_def d_def)
    have "(b - r) / d = - u" by (simp add: u_def minus_divide_left)
    moreover have "max r (max g b) \<noteq> r" "max r (max g b) = g" using grb by simp_all
    ultimately have H: "H = 2 - u" using m by (simp add: H_def mx_def[symmetric] mn_def[symmetric] d_def)
    have w1: "hue2rgb 0 1 ((2 - u) / 6 + 1 / 3) = u"
      using u by (auto simp: hue2rgb_def Let_def diff_divide_distrib add_divide_distrib)
    have w2: "hue2rgb 0 1 ((2 - u) / 6) = 1"
      using u by (auto simp: hue2rgb_def Let_def diff_divide_distrib add_divide_distrib)
    have w3: "hue2rgb 0 1 ((2 - u) / 6 - 1 / 3) = 0"
      using u by (auto simp: hue2rgb_def Let_def diff_divide_distrib add_divide_distrib)
    show ?thesis unfolding H w1 w2 w3 using m dpos by (simp add: u_def d_def)
  next
    case gbr
    then have m: "mx = g" "mn = r" by (simp_all add: mx_def mn_def)
    define u where "u = (b - r) / d"
    have u: "0 < u" "u \<le> 1" using gbr dpos m by (simp_all add: u_def d_def)
    have "max r (max g b) \<noteq> r" "max r (max g b) = g" using gbr by simp_all
    then have H: "H = 2 + u" using m by (simp add: H_def mx_def[symmetric] mn_def[symmetric] d_def u_def)
    have w1: "hue2rgb 0 1 ((2 + u) / 6 + 1 / 3) = 0"
      using u by (auto simp: hue2rgb_def Let_def diff_divide_distrib add_divide_distrib)
    have w2: "hue2rgb 0 1 ((2 + u) / 6) = 1"
      using u by (cases "u = 1") (auto simp: hue2rgb_def Let_def diff_divide_distrib add_divide_distrib)
    have w3: "hue2rgb 0 1 ((2 + u) / 6 - 1 / 3) = u"
      using u by (cases "u = 1") (auto simp: hue2rgb_def Let_def diff_divide_distrib add_divide_distrib)
    show ?thesis unfolding H w1 w2 w3 using m dpos by (simp add: u_def d_def)
  next
    case bgr
    then have m: "mx = b" "mn = r" by (simp_all add: mx_def mn_def)
    define u where "u = (g - r) / d"
    have u: "0 \<le> u" "u < 1" using bgr dpos m by (simp_all add: u_def d_def)
    have "(r - g) / d = - u" by (simp add: u_def minus_divide_left)
    moreover have "max r (max g b) \<noteq> r" "max r (max g b) \<noteq> g" using bgr by simp_all
    ultimately have H: "H = 4 - u" using m by (simp add: H_def mx_def[symmetric] mn_def[symmetric] d_def)
    have w1: "hue2rgb 0 1 ((4 - u) / 6 + 1 / 3) = 0"
      using u by (auto simp: hue2rgb_def Let_def diff_divide_distrib add_divide_distrib)
    have w2: "hue2rgb 0 1 ((4 - u) / 6) = u"
      using u by (auto simp: hue2rgb_def Let_def diff_divide_distrib add_divide_distrib)
    have w3: "hue2rgb 0 1 ((4 - u) / 6 - 1 / 3) = 1"
      using u by (auto simp: hue2rgb_def Let_def diff_divide_distrib add_divide_distrib)
    show ?thesis unfolding H w1 w2 w3 using m dpos by (simp add: u_def d_def)
  next
    case brg
    then have m: "mx = b" "mn = g" by (simp_all add: mx_def mn_def)
    define u where "u = (r - g) / d"
    have u: "0 < u" "u < 1" using brg dpos m by (simp_all add: u_def d_def)
    have "max r (max g b) \<noteq> r" "max r (max g b) \<noteq> g" using brg by simp_all
    then have H: "H = 4 + u" using m by (simp add: H_def mx_def[symmetric] mn_def[symmetric] d_def u_def)
    have w1: "hue2rgb 0 1 ((4 + u) / 6 + 1 / 3) = u"
      using u by (auto simp: hue2rgb_def Let_def diff_divide_distrib add_divide_distrib)
    have w2: "hue2rgb 0 1 ((4 + u) / 6) = 0"
      using u by (auto simp: hue2rgb_def Let_def diff_divide_distrib add_divide_distrib)
    have w3: "hue2rgb 0 1 ((4 + u) / 6 - 1 / 3) = 1"
      using u by (auto simp: hue2rgb_def Let_def diff_divide_distrib add_divide_distrib)
    show ?thesis unfolding H w1 w2 w3 using m dpos by (simp add: u_def d_def)
  qed
  then show "hue2rgb 0 1 (H / 6 + 1 / 3) = (r - mn) / (mx - mn)"
    and "hue2rgb 0 1 (H / 6) = (g - mn) / (mx - mn)"
    and "hue2rgb 0 1 (H / 6 - 1 / 3) = (b - mn) / (mx - mn)"
    by (simp_all add: d_def)
qed

lemma chroma_perturbed:
  fixes l s lt st :: real
  assumes l: "0 \<le> l" "l \<le> 1" and s: "0 \<le> s" "s \<le> 1"
    and lt: "lt \<le> l" "l - 1 / 10000 < lt" "0 \<le> lt"
    and st: "st \<le> s" "s - 1 / 10000 < st" "0 \<le> st"
  shows "s * (if l < 1 / 2 then l else 1 - l) - st * (if lt < 1 / 2 then lt else 1 - lt) \<le> 3 / 20000"
    and "- (1 / 10000) \<le> s * (if l < 1 / 2 then l else 1 - l) - st * (if lt < 1 / 2 then lt else 1 - lt)"
proof -
  define ml where "ml = (if l < 1 / 2 then l else 1 - l)"
  define mlt where "mlt = (if lt < 1 / 2 then lt else 1 - lt)"
  define e where "e = ml - mlt"
  define a where "a = s - st"
  have e: "- (1 / 10000) < e" "e < 1 / 10000"
    using lt unfolding e_def ml_def mlt_def by (auto split: if_splits)
  have a: "0 \<le> a" "a \<le> 1 / 10000" using st by (simp_all add: a_def)
  have m: "0 \<le> mlt" "mlt \<le> 1 / 2" using lt l unfolding mlt_def by (auto split: if_splits)
  have id: "s * ml - st * mlt = s * e + a * mlt" by (simp add: e_def a_def algebra_simps)
  have se1: "s * e \<le> 1 / 10000"
  proof (cases "0 \<le> e")
    case True
    then have "s * e \<le> 1 * e" using s by (intro mult_right_mono) simp_all
    then show ?thesis using e by simp
  next
    case False
    then have "s * e \<le> 0" using s by (simp add: mult_nonneg_nonpos)
    then show ?thesis by simp
  qed
  have se2: "- (1 / 10000) \<le> s * e"
  proof (cases "0 \<le> e")
    case True
    then have "0 \<le> s * e" using s by simp
    then show ?thesis by simp
  next
    case False
    then have "s * (- e) \<le> 1 * (- e)" using s by (intro mult_right_mono) simp_all
    then show ?thesis using e by simp
  qed
  have am1: "0 \<le> a * mlt" using a m by simp
  have "a * mlt \<le> (1 / 10000) * (1 / 2)" using a m by (intro mult_mono) simp_all
  then have am2: "a * mlt \<le> 1 / 20000" by simp
  show "s * (if l < 1 / 2 then l else 1 - l) - st * (if lt < 1 / 2 then lt else 1 - lt) \<le> 3 / 20000"
    unfolding ml_def[symmetric] mlt_def[symmetric] id using se1 am2 by simp
  show "- (1 / 10000) \<le> s * (if l < 1 / 2 then l else 1 - l) - st * (if lt < 1 / 2 then lt else 1 - lt)"
    unfolding ml_def[symmetric] mlt_def[symmetric] id using se2 am1 by simp
qed

lemma hsl_exact:
  fixes mx mn :: real
  assumes "0 \<le> mn" "mn < mx" "mx \<le> 1"
  defines "l \<equiv> (mx + mn) / 2"
  defines "s \<equiv> (if l > 1 / 2 then (mx - mn) / (2 - mx - mn) else (mx - mn) / (mx + mn))"
  shows "s * (if l < 1 / 2 then l else 1 - l) = (mx - mn) / 2" and "0 \<le> s" and "s \<le> 1"
    and "(mx - mn) / 2 \<le> s"
proof -
  have p1: "0 < mx + mn" "0 < 2 - mx - mn" using assms(1-3) by simp_all
  show "s * (if l < 1 / 2 then l else 1 - l) = (mx - mn) / 2"
  proof (cases "l > 1 / 2")
    case True
    then show ?thesis using p1 by (simp add: s_def) (simp add: l_def field_simps)
  next
    case False
    then have "(if l < 1 / 2 then l else 1 - l) = l" by (cases "l < 1 / 2") simp_all
    then show ?thesis using False p1 by (simp add: s_def) (simp add: l_def field_simps)
  qed
  show "0 \<le> s" using assms(1-3) p1 by (simp add: s_def)
  show "s \<le> 1" using assms(1-3) p1 by (simp add: s_def divide_le_eq)
  show "(mx - mn) / 2 \<le> s"
  proof (cases "l > 1 / 2")
    case True
    have "2 - mx - mn \<le> 2" using assms(1-3) by simp
    then have "(mx - mn) / 2 \<le> (mx - mn) / (2 - mx - mn)"
      using p1 assms(2) by (intro divide_left_mono) simp_all
    then show ?thesis using True by (simp add: s_def)
  next
    case False
    have "mx + mn \<le> 2" using assms(1-3) by simp
    then have "(mx - mn) / 2 \<le> (mx - mn) / (mx + mn)"
      using p1 assms(2) by (intro divide_left_mono) simp_all
    then show ?thesis using False by (simp add: s_def)
  qed
qed

lemma convex_bound:
  fixes W x y A B :: real
  assumes "0 \<le> W" "W \<le> 1" "A \<le> x" "x \<le> B" "A \<le> y" "y \<le> B"
  shows "A \<le> x * (1 - W) + y * W" and "x * (1 - W) + y * W \<le> B"
proof -
  have 1: "0 \<le> (x - A) * (1 - W)" "0 \<le> (y - A) * W" "0 \<le> (B - x) * (1 - W)" "0 \<le> (B - y) * W"
    using assms by simp_all
  have "x * (1 - W) + y * W - A = (x - A) * (1 - W) + (y - A) * W" by (simp add: algebra_simps)
  then show "A \<le> x * (1 - W) + y * W" using 1 by linarith
  have "B - (x * (1 - W) + y * W) = (B - x) * (1 - W) + (B - y) * W" by (simp add: algebra_simps)
  then show "x * (1 - W) + y * W \<le> B" using 1 by linarith
qed

lemma Math_round_near:
  assumes "\<bar>y - of_int k\<bar> < 1 / 2"
  shows "Math_round y = k"
proof -
  have "of_int k \<le> y + 1 / 2" "y + 1 / 2 < of_int k + 1" using assms by linarith+
  then show ?thesis unfolding Math_round_def by linarith
qed

text \<open>What the constructor and the hexadecimal notation make of a channel that is within a half of an integer of 0 to 255.\<close>

lemma channel_round:
  assumes "\<bar>y - real k\<bar> < 1 / 2" "k \<le> 255"
  defines "z \<equiv> min 255 (max y 0)"
  shows "Math_round (if z < 1 then of_int (Math_round z) else z) = int k"
    and "\<bar>(if z < 1 then of_int (Math_round z) else z) - real k\<bar> \<le> \<bar>y - real k\<bar>"
proof -
  have k: "0 \<le> real k" "real k \<le> 255" using assms(2) by simp_all
  have zk: "\<bar>z - real k\<bar> \<le> \<bar>y - real k\<bar>" using k unfolding z_def by (auto simp: min_def max_def)
  then have zk2: "\<bar>z - of_int (int k)\<bar> < 1 / 2" using assms(1) by simp
  have rz: "Math_round z = int k" by (rule Math_round_near[OF zk2])
  show "Math_round (if z < 1 then of_int (Math_round z) else z) = int k"
    by (simp add: rz Math_round_of_int Math_round_of_nat)
  show "\<bar>(if z < 1 then of_int (Math_round z) else z) - real k\<bar> \<le> \<bar>y - real k\<bar>"
    using zk by (simp add: rz)
qed

lemma floor_trunc4:
  fixes x :: real
  assumes "x = 0 \<or> 1 / 1000 \<le> x" "x \<le> 1"
  defines "t \<equiv> bound01 (convertToPercentage (Num x)) 100"
  shows "t \<le> x" and "x - 1 / 10000 < t" and "0 \<le> t" and "t = of_int \<lfloor>x * 10000\<rfloor> / 10000"
proof -
  have x0: "0 \<le> x" using assms(1) by auto
  have "x * 10000 = 0 \<or> 1 / 1000000 \<le> x * 10000" using assms(1) by auto
  then have p: "parseInt_String (x * 10000) = \<lfloor>x * 10000\<rfloor>" by (rule parseInt_String_floor)
  show t: "t = of_int \<lfloor>x * 10000\<rfloor> / 10000"
    unfolding t_def normalised_percent[OF x0 assms(2)] p ..
  have "of_int \<lfloor>x * 10000\<rfloor> \<le> x * 10000" "x * 10000 - 1 < of_int \<lfloor>x * 10000\<rfloor>"
    "0 \<le> (of_int \<lfloor>x * 10000\<rfloor> :: real)" using x0 by (linarith, linarith, simp)
  then show "t \<le> x" "x - 1 / 10000 < t" "0 \<le> t" unfolding t by simp_all
qed

lemma bound01_hue:
  assumes "0 \<le> h" "h \<le> 360 - 1 / 1000000"
  shows "bound01 (Num h) 360 = h / 360"
proof -
  have "\<not> \<bar>h - 360\<bar> < 1 / 1000000" using assms by linarith
  moreover have "js_rem h 360 = h" using assms by (intro js_rem_small) simp_all
  ultimately show ?thesis using assms(1) by (simp add: bound01_def Let_def)
qed

lemma new_TinyColor_hslInput:
  "new_TinyColor (hslInput x) =
     \<lparr>tc_r = (if min 255 (max (rgb_r (hslToRgb (Num (hsl_h x)) (convertToPercentage (Num (hsl_s x)))
                (convertToPercentage (Num (hsl_l x))))) 0) < 1
              then of_int (Math_round (min 255 (max (rgb_r (hslToRgb (Num (hsl_h x))
                (convertToPercentage (Num (hsl_s x))) (convertToPercentage (Num (hsl_l x))))) 0)))
              else min 255 (max (rgb_r (hslToRgb (Num (hsl_h x)) (convertToPercentage (Num (hsl_s x)))
                (convertToPercentage (Num (hsl_l x))))) 0)),
      tc_g = (if min 255 (max (rgb_g (hslToRgb (Num (hsl_h x)) (convertToPercentage (Num (hsl_s x)))
                (convertToPercentage (Num (hsl_l x))))) 0) < 1
              then of_int (Math_round (min 255 (max (rgb_g (hslToRgb (Num (hsl_h x))
                (convertToPercentage (Num (hsl_s x))) (convertToPercentage (Num (hsl_l x))))) 0)))
              else min 255 (max (rgb_g (hslToRgb (Num (hsl_h x)) (convertToPercentage (Num (hsl_s x)))
                (convertToPercentage (Num (hsl_l x))))) 0)),
      tc_b = (if min 255 (max (rgb_b (hslToRgb (Num (hsl_h x)) (convertToPercentage (Num (hsl_s x)))
                (convertToPercentage (Num (hsl_l x))))) 0) < 1
              then of_int (Math_round (min 255 (max (rgb_b (hslToRgb (Num (hsl_h x))
                (convertToPercentage (Num (hsl_s x))) (convertToPercentage (Num (hsl_l x))))) 0)))
              else min 255 (max (rgb_b (hslToRgb (Num (hsl_h x)) (convertToPercentage (Num (hsl_s x)))
                (convertToPercentage (Num (hsl_l x))))) 0)),
      format = FormatHsl, isValid = True\<rparr>"
  by (simp only: new_TinyColor_def hslInput_def inputToRGB_def Let_def ColorInput.case
      option.case ColorObj.case InputRGB.simps option.distinct not_False_eq_True simp_thms)

text \<open>From a colour with whole channels to HSL and back: every channel comes back within a tenth, so rounding restores it.\<close>

lemma roundtrip_channels:
  fixes R G B :: nat and f :: ColorFormat and v :: bool
  assumes le: "R \<le> 255" "G \<le> 255" "B \<le> 255"
  defines "c1 \<equiv> new_TinyColor (hslInput (toHsl
      \<lparr>tc_r = real R, tc_g = real G, tc_b = real B, format = f, isValid = v\<rparr>))"
  shows "Math_round (tc_r c1) = int R \<and> Math_round (tc_g c1) = int G \<and> Math_round (tc_b c1) = int B \<and>
    \<bar>tc_r c1 - real R\<bar> < 1 / 10 \<and> \<bar>tc_g c1 - real G\<bar> < 1 / 10 \<and> \<bar>tc_b c1 - real B\<bar> < 1 / 10 \<and>
    format c1 = FormatHsl \<and> isValid c1"
proof -
  define r where "r = real R / 255"
  define g where "g = real G / 255"
  define b where "b = real B / 255"
  define mx where "mx = max r (max g b)"
  define mn where "mn = min r (min g b)"
  define x where "x = toHsl \<lparr>tc_r = real R, tc_g = real G, tc_b = real B, format = f, isValid = v\<rparr>"
  define hh where "hh = bound01 (Num (hsl_h x)) 360"
  define ss where "ss = bound01 (convertToPercentage (Num (hsl_s x))) 100"
  define ll where "ll = bound01 (convertToPercentage (Num (hsl_l x))) 100"
  define rgb1 where "rgb1 = hslToRgb (Num (hsl_h x)) (convertToPercentage (Num (hsl_s x)))
      (convertToPercentage (Num (hsl_l x)))"
  have rng: "0 \<le> r" "r \<le> 1" "0 \<le> g" "g \<le> 1" "0 \<le> b" "b \<le> 1"
    using le by (simp_all add: r_def g_def b_def)
  have mrng: "0 \<le> mn" "mn \<le> mx" "mx \<le> 1" using rng by (auto simp: mx_def mn_def)
  have grid: "p \<in> {r, g, b} \<Longrightarrow> q \<in> {r, g, b} \<Longrightarrow> p < q \<Longrightarrow> p + 1 / 255 \<le> q" for p q
  proof -
    have "real m / 255 + 1 / 255 \<le> real n / 255" if "real m / 255 < real n / 255" for m n :: nat
    proof -
      from that have "m < n" by simp
      then have "m + 1 \<le> n" by simp
      then have "real m + 1 \<le> real n" by (metis of_nat_1 of_nat_add of_nat_le_iff)
      then show ?thesis by (simp add: field_simps)
    qed
    then show "p \<in> {r, g, b} \<Longrightarrow> q \<in> {r, g, b} \<Longrightarrow> p < q \<Longrightarrow> p + 1 / 255 \<le> q"
      unfolding r_def g_def b_def by blast
  qed
  have mem: "mx \<in> {r, g, b}" "mn \<in> {r, g, b}" by (auto simp: mx_def mn_def max_def min_def)
  have xeq: "x = (let l = (mx + mn) / 2 in
      if mx = mn then \<lparr>hsl_h = 0, hsl_s = 0, hsl_l = l\<rparr>
      else \<lparr>hsl_h = (if mx = r then (g - b) / (mx - mn) + (if g < b then 6 else 0)
                      else if mx = g then (b - r) / (mx - mn) + 2
                      else (r - g) / (mx - mn) + 4) / 6 * 360,
             hsl_s = (if l > 1 / 2 then (mx - mn) / (2 - mx - mn) else (mx - mn) / (mx + mn)),
             hsl_l = l\<rparr>)"
    unfolding x_def toHsl_def rgbToHsl_def
    by (simp add: Let_def bound01_Num_255_nat le r_def[symmetric] g_def[symmetric] b_def[symmetric]
        mx_def[symmetric] mn_def[symmetric])
  have c1eq: "c1 =
     \<lparr>tc_r = (if min 255 (max (rgb_r rgb1) 0) < 1 then of_int (Math_round (min 255 (max (rgb_r rgb1) 0)))
              else min 255 (max (rgb_r rgb1) 0)),
      tc_g = (if min 255 (max (rgb_g rgb1) 0) < 1 then of_int (Math_round (min 255 (max (rgb_g rgb1) 0)))
              else min 255 (max (rgb_g rgb1) 0)),
      tc_b = (if min 255 (max (rgb_b rgb1) 0) < 1 then of_int (Math_round (min 255 (max (rgb_b rgb1) 0)))
              else min 255 (max (rgb_b rgb1) 0)),
      format = FormatHsl, isValid = True\<rparr>"
    unfolding c1_def x_def[symmetric] new_TinyColor_hslInput rgb1_def ..
  have near: "\<bar>rgb_r rgb1 - real R\<bar> < 1 / 10 \<and> \<bar>rgb_g rgb1 - real G\<bar> < 1 / 10 \<and>
      \<bar>rgb_b rgb1 - real B\<bar> < 1 / 10"
  proof (cases "mx = mn")
    case True
    then have eq: "r = mx" "g = mx" "b = mx" using mrng by (auto simp: mx_def mn_def max_def min_def split: if_splits)
    have xs: "hsl_s x = 0" "hsl_l x = mx" using True by (simp_all add: xeq Let_def)
    have ss0: "ss = 0" unfolding ss_def xs by (rule normalised_percent_0)
    have "mx = 0 \<or> 1 / 1000 \<le> mx"
    proof (cases "R = 0")
      case True then show ?thesis using eq(1) by (simp add: r_def)
    next
      case False
      then have "1 \<le> real R" by simp
      then have "1 / 255 \<le> mx" unfolding eq(1)[symmetric] r_def by simp
      then show ?thesis by simp
    qed
    from floor_trunc4(1,2)[OF this mrng(3)] have l: "ll \<le> mx" "mx - 1 / 10000 < ll"
      unfolding ll_def xs by simp_all
    have rgb: "rgb_r rgb1 = ll * 255" "rgb_g rgb1 = ll * 255" "rgb_b rgb1 = ll * 255"
      unfolding rgb1_def hslToRgb_def Let_def ss_def[symmetric] ll_def[symmetric] ss0 by simp_all
    have R: "real R = mx * 255" "real G = mx * 255" "real B = mx * 255"
      using eq by (simp_all add: r_def g_def b_def)
    show ?thesis unfolding rgb R using l by (simp add: abs_if)
  next
    case False
    then have lt: "mn < mx" using mrng by simp
    define d where "d = mx - mn"
    have d: "1 / 255 \<le> d" "d \<le> 1" using grid[OF mem(2) mem(1) lt] mrng by (simp_all add: d_def)
    define l where "l = (mx + mn) / 2"
    define s where "s = (if l > 1 / 2 then (mx - mn) / (2 - mx - mn) else (mx - mn) / (mx + mn))"
    define H where "H = (if max r (max g b) = r
                 then (g - b) / (max r (max g b) - min r (min g b)) + (if g < b then 6 else 0)
                 else if max r (max g b) = g
                 then (b - r) / (max r (max g b) - min r (min g b)) + 2
                 else (r - g) / (max r (max g b) - min r (min g b)) + 4)"
    have xs: "hsl_h x = H / 6 * 360" "hsl_s x = s" "hsl_l x = l"
      using False by (simp_all add: xeq Let_def H_def s_def l_def mx_def mn_def)
    note ex = hsl_exact[OF mrng(1) lt mrng(3), folded l_def, folded s_def]
    have lr: "0 \<le> l" "l \<le> 1" "1 / 1000 \<le> l" using mrng d by (simp_all add: l_def d_def)
    have sr: "1 / 1000 \<le> s" using ex(4) d by (simp add: d_def)
    note fl = floor_trunc4(1-3)[of l, folded xs(3), folded ll_def, unfolded xs(3)]
    note fs = floor_trunc4(1-3)[of s, folded xs(2), folded ss_def, unfolded xs(2)]
    have llb: "ll \<le> l" "l - 1 / 10000 < ll" "0 \<le> ll" using fl lr by simp_all
    have ssb: "ss \<le> s" "s - 1 / 10000 < ss" "0 \<le> ss" using fs sr ex(3) by simp_all
    have ssne: "ss \<noteq> 0" using ssb(2) sr by simp
    have ne: "max r (max g b) \<noteq> min r (min g b)" using False by (simp add: mx_def mn_def)
    have Hr: "0 \<le> H" "H < 6" using hue_sector_range[OF ne] unfolding H_def by simp_all
    have Hfold: "H = (if mx = r then (g - b) / d + (if g < b then 6 else 0)
                 else if mx = g then (b - r) / d + 2 else (r - g) / d + 4)"
      by (simp add: H_def mx_def[symmetric] mn_def[symmetric] d_def)
    have Hu: "H \<le> 6 - 1 / 255"
    proof (cases "max r (max g b) = r \<and> g < b")
      case True
      then have "g + 1 / 255 \<le> b" by (intro grid) simp_all
      then have gb: "g - b \<le> - (1 / 255)" by simp
      have "(g - b) / d \<le> (g - b) / 1"
        using d gb by (intro divide_left_mono_neg) simp_all
      then have 1: "(g - b) / d \<le> - (1 / 255)" using gb by simp
      from True have m: "mx = r" "g < b" unfolding mx_def by blast+
      have "H = (g - b) / d + 6" unfolding Hfold using m by simp
      then show ?thesis using 1 by linarith
    next
      case False
      have gb: "\<bar>b - r\<bar> \<le> d" "\<bar>r - g\<bar> \<le> d" "\<bar>g - b\<bar> \<le> d"
        unfolding d_def mx_def mn_def by (auto simp: max_def min_def split: if_splits)
      have dpos: "0 < d" using d by simp
      have q: "(b - r) / d \<le> 1" "(r - g) / d \<le> 1" "(g - b) / d \<le> 1"
        using dpos gb by (simp_all add: divide_le_eq)
      have nn: "\<not> g < b \<Longrightarrow> (g - b) / d \<le> 1" using q by simp
      have "\<not> (mx = r \<and> g < b)" using False unfolding mx_def by blast
      then have "H \<le> 5" unfolding Hfold using q by (auto split: if_splits)
      then show ?thesis by simp
    qed
    have "0 \<le> H / 6 * 360" "H / 6 * 360 \<le> 360 - 1 / 1000000" using Hr Hu by simp_all
    from bound01_hue[OF this] have hh: "hh = H / 6" unfolding hh_def xs by simp
    define q where "q = (if ll < 1 / 2 then ll * (1 + ss) else ll + ss - ll * ss)"
    define p where "p = 2 * ll - q"
    have rgb: "rgb_r rgb1 = hue2rgb p q (H / 6 + 1 / 3) * 255"
      "rgb_g rgb1 = hue2rgb p q (H / 6) * 255"
      "rgb_b rgb1 = hue2rgb p q (H / 6 - 1 / 3) * 255"
      unfolding rgb1_def hslToRgb_def Let_def ss_def[symmetric] ll_def[symmetric] hh_def[symmetric]
        q_def[symmetric] p_def[symmetric] hh
      using ssne by (simp_all add: q_def[symmetric] p_def[symmetric])
    define Dl where "Dl = s * (if l < 1 / 2 then l else 1 - l) - ss * (if ll < 1 / 2 then ll else 1 - ll)"
    have Dl: "Dl \<le> 3 / 20000" "- (1 / 10000) \<le> Dl"
      unfolding Dl_def using chroma_perturbed[OF lr(1,2) ex(2,3) llb ssb] by simp_all
    have mxl: "mx = l + s * (if l < 1 / 2 then l else 1 - l)" "mn = l - s * (if l < 1 / 2 then l else 1 - l)"
      unfolding ex(1) by (simp_all add: l_def field_simps)
    have qe: "q = ll + ss * (if ll < 1 / 2 then ll else 1 - ll)"
      by (simp add: q_def algebra_simps)
    have pe: "p = ll - ss * (if ll < 1 / 2 then ll else 1 - ll)"
      by (simp add: p_def qe)
    have qb: "- (5 / 20000) \<le> q - mx" "q - mx \<le> 3 / 20000"
      using Dl llb unfolding qe mxl(1) Dl_def by simp_all
    have pb: "- (5 / 20000) \<le> p - mn" "p - mn \<le> 3 / 20000"
      using Dl llb unfolding pe mxl(2) Dl_def by simp_all
    have chan: "\<bar>hue2rgb p q t * 255 - real K\<bar> < 1 / 10"
      if w: "hue2rgb 0 1 t = (k - mn) / (mx - mn)" and k: "k = real K / 255" "mn \<le> k" "k \<le> mx"
      for t k K
    proof -
      define W where "W = (k - mn) / (mx - mn)"
      have W: "0 \<le> W" "W \<le> 1" using k lt by (simp_all add: W_def divide_le_eq)
      have kW: "k = mn + (mx - mn) * W" using lt by (simp add: W_def)
      have "hue2rgb p q t = p + (q - p) * W" using hue2rgb_affine[of p q t] w by (simp add: W_def)
      then have "hue2rgb p q t - k = (p - mn) * (1 - W) + (q - mx) * W"
        unfolding kW by (simp add: algebra_simps)
      with convex_bound[OF W pb(1,2) qb(1,2)]
      have "- (5 / 20000) \<le> hue2rgb p q t - k" "hue2rgb p q t - k \<le> 3 / 20000" by simp_all
      moreover have "real K = k * 255" using k(1) by simp
      ultimately show ?thesis by (simp add: abs_if)
    qed
    note inv = hue2rgb_inverse[OF ne, folded H_def, folded mx_def mn_def]
    have kr: "mn \<le> r" "r \<le> mx" "mn \<le> g" "g \<le> mx" "mn \<le> b" "b \<le> mx"
      by (auto simp: mx_def mn_def)
    show ?thesis unfolding rgb
      using chan[OF inv(1) r_def kr(1,2)] chan[OF inv(2) g_def kr(3,4)] chan[OF inv(3) b_def kr(5,6)]
      by simp
  qed
  have nr: "\<bar>rgb_r rgb1 - real R\<bar> < 1 / 2" "\<bar>rgb_g rgb1 - real G\<bar> < 1 / 2" "\<bar>rgb_b rgb1 - real B\<bar> < 1 / 2"
    using near by simp_all
  define zr where "zr = (if min 255 (max (rgb_r rgb1) 0) < 1
      then of_int (Math_round (min 255 (max (rgb_r rgb1) 0))) else min 255 (max (rgb_r rgb1) 0))"
  define zg where "zg = (if min 255 (max (rgb_g rgb1) 0) < 1
      then of_int (Math_round (min 255 (max (rgb_g rgb1) 0))) else min 255 (max (rgb_g rgb1) 0))"
  define zb where "zb = (if min 255 (max (rgb_b rgb1) 0) < 1
      then of_int (Math_round (min 255 (max (rgb_b rgb1) 0))) else min 255 (max (rgb_b rgb1) 0))"
  have c1z: "c1 = \<lparr>tc_r = zr, tc_g = zg, tc_b = zb, format = FormatHsl, isValid = True\<rparr>"
    unfolding c1eq zr_def zg_def zb_def ..
  have sel: "tc_r c1 = zr" "tc_g c1 = zg" "tc_b c1 = zb" "format c1 = FormatHsl" "isValid c1"
    unfolding c1z by simp_all
  have rr: "Math_round zr = int R" "\<bar>zr - real R\<bar> \<le> \<bar>rgb_r rgb1 - real R\<bar>"
    using channel_round[OF nr(1) le(1)] unfolding zr_def by blast+
  have rg: "Math_round zg = int G" "\<bar>zg - real G\<bar> \<le> \<bar>rgb_g rgb1 - real G\<bar>"
    using channel_round[OF nr(2) le(2)] unfolding zg_def by blast+
  have rb: "Math_round zb = int B" "\<bar>zb - real B\<bar> \<le> \<bar>rgb_b rgb1 - real B\<bar>"
    using channel_round[OF nr(3) le(3)] unfolding zb_def by blast+
  have "\<bar>zr - real R\<bar> < 1 / 10" "\<bar>zg - real G\<bar> < 1 / 10" "\<bar>zb - real B\<bar> < 1 / 10"
    using rr(2) rg(2) rb(2) near by linarith+
  then show ?thesis using rr(1) rg(1) rb(1) sel by simp
qed

lemma js_rem_range:
  assumes "0 < y"
  shows "0 \<le> x \<Longrightarrow> 0 \<le> js_rem x y \<and> js_rem x y < y"
    and "x < 0 \<Longrightarrow> - y < js_rem x y \<and> js_rem x y \<le> 0"
proof -
  have fl: "of_int \<lfloor>x / y\<rfloor> \<le> x / y" "x / y < of_int \<lfloor>x / y\<rfloor> + 1" by linarith+
  have ce: "x / y \<le> of_int \<lceil>x / y\<rceil>" "of_int \<lceil>x / y\<rceil> - 1 < x / y" by linarith+
  have m: "y * (x / y) = x" using assms by simp
  {
    assume "0 \<le> x"
    then have t: "js_trunc (x / y) = \<lfloor>x / y\<rfloor>" using assms by (simp add: js_trunc_def)
    have "y * of_int \<lfloor>x / y\<rfloor> \<le> y * (x / y)" "y * (x / y) < y * (of_int \<lfloor>x / y\<rfloor> + 1)"
      using fl assms by (simp_all only: mult_le_cancel_left_pos mult_less_cancel_left_pos)
    then show "0 \<le> js_rem x y \<and> js_rem x y < y"
      unfolding js_rem_def t m by (simp add: algebra_simps)
  }
  {
    assume "x < 0"
    then have "x / y < 0" using assms by (simp add: divide_neg_pos)
    then have t: "js_trunc (x / y) = \<lceil>x / y\<rceil>" by (simp add: js_trunc_def)
    have "y * (x / y) \<le> y * of_int \<lceil>x / y\<rceil>" "y * (of_int \<lceil>x / y\<rceil> - 1) < y * (x / y)"
      using ce assms by (simp_all only: mult_le_cancel_left_pos mult_less_cancel_left_pos)
    then show "- y < js_rem x y \<and> js_rem x y \<le> 0"
      unfolding js_rem_def t m by (simp add: algebra_simps)
  }
qed

lemma bound01_360_range: "0 \<le> bound01 (Num n) 360 \<and> bound01 (Num n) 360 \<le> 1"
proof (cases "\<bar>n - 360\<bar> < 1 / 1000000")
  case True
  then show ?thesis by (simp add: bound01_def Let_def)
next
  case False
  show ?thesis
  proof (cases "n < 0")
    case True
    from js_rem_range(2)[OF _ True, of 360] have "- 360 < js_rem n 360" "js_rem n 360 \<le> 0" by simp_all
    then show ?thesis using False True by (simp add: bound01_def Let_def)
  next
    case nn: False
    then have "0 \<le> n" by simp
    from js_rem_range(1)[OF _ this, of 360] have "0 \<le> js_rem n 360" "js_rem n 360 < 360" by simp_all
    then show ?thesis using False nn by (simp add: bound01_def Let_def)
  qed
qed

text \<open>The saturation and the lightness of every colour lie in [0, 1].\<close>

lemma rgbToHsl_range:
  "0 \<le> hsl_s (rgbToHsl r0 g0 b0) \<and> hsl_s (rgbToHsl r0 g0 b0) \<le> 1 \<and>
   0 \<le> hsl_l (rgbToHsl r0 g0 b0) \<and> hsl_l (rgbToHsl r0 g0 b0) \<le> 1"
proof -
  define r where "r = bound01 (Num r0) 255"
  define g where "g = bound01 (Num g0) 255"
  define b where "b = bound01 (Num b0) 255"
  define mx where "mx = max r (max g b)"
  define mn where "mn = min r (min g b)"
  have rng: "0 \<le> r" "r \<le> 1" "0 \<le> g" "g \<le> 1" "0 \<le> b" "b \<le> 1"
    using bound01_Num_255_range by (simp_all add: r_def g_def b_def)
  have m: "0 \<le> mn" "mn \<le> mx" "mx \<le> 1" using rng by (auto simp: mx_def mn_def)
  have l: "0 \<le> (mx + mn) / 2" "(mx + mn) / 2 \<le> 1" using m by simp_all
  show ?thesis
  proof (cases "mx = mn")
    case True
    then have "hsl_s (rgbToHsl r0 g0 b0) = 0" "hsl_l (rgbToHsl r0 g0 b0) = (mx + mn) / 2"
      by (simp_all add: rgbToHsl_def Let_def r_def[symmetric] g_def[symmetric] b_def[symmetric]
          mx_def[symmetric] mn_def[symmetric])
    then show ?thesis using l by simp
  next
    case False
    then have lt: "mn < mx" using m by simp
    have "hsl_s (rgbToHsl r0 g0 b0) =
        (if (mx + mn) / 2 > 1 / 2 then (mx - mn) / (2 - mx - mn) else (mx - mn) / (mx + mn))"
      "hsl_l (rgbToHsl r0 g0 b0) = (mx + mn) / 2"
      using False
      by (simp_all add: rgbToHsl_def Let_def r_def[symmetric] g_def[symmetric] b_def[symmetric]
          mx_def[symmetric] mn_def[symmetric])
    then show ?thesis using l hsl_exact(2,3)[OF m(1) lt m(3)] by simp
  qed
qed

lemma toHsl_range:
  "0 \<le> hsl_s (toHsl c) \<and> hsl_s (toHsl c) \<le> 1 \<and> 0 \<le> hsl_l (toHsl c) \<and> hsl_l (toHsl c) \<le> 1"
  using rgbToHsl_range[of "tc_r c" "tc_g c" "tc_b c"] by (simp add: toHsl_def Let_def)

text \<open>Saturation and lightness of a colour with whole channels, from its largest and smallest channel.\<close>

lemma toHsl_nat:
  fixes R G B :: nat
  assumes le: "R \<le> 255" "G \<le> 255" "B \<le> 255"
  defines "mx \<equiv> real (max R (max G B)) / 255" and "mn \<equiv> real (min R (min G B)) / 255"
  shows "hsl_l (toHsl \<lparr>tc_r = real R, tc_g = real G, tc_b = real B, format = f, isValid = v\<rparr>) = (mx + mn) / 2"
    and "hsl_s (toHsl \<lparr>tc_r = real R, tc_g = real G, tc_b = real B, format = f, isValid = v\<rparr>) =
      (if mx = mn then 0
       else if (mx + mn) / 2 > 1 / 2 then (mx - mn) / (2 - mx - mn) else (mx - mn) / (mx + mn))"
proof -
  define r where "r = real R / 255"
  define g where "g = real G / 255"
  define b where "b = real B / 255"
  have mx: "max r (max g b) = mx" unfolding mx_def r_def g_def b_def
    by (simp add: max_def)
  have mn: "min r (min g b) = mn" unfolding mn_def r_def g_def b_def
    by (simp add: min_def)
  show "hsl_l (toHsl \<lparr>tc_r = real R, tc_g = real G, tc_b = real B, format = f, isValid = v\<rparr>) = (mx + mn) / 2"
    unfolding toHsl_def rgbToHsl_def
    by (simp add: Let_def bound01_Num_255_nat le r_def[symmetric] g_def[symmetric] b_def[symmetric] mx mn)
  show "hsl_s (toHsl \<lparr>tc_r = real R, tc_g = real G, tc_b = real B, format = f, isValid = v\<rparr>) =
      (if mx = mn then 0
       else if (mx + mn) / 2 > 1 / 2 then (mx - mn) / (2 - mx - mn) else (mx - mn) / (mx + mn))"
    unfolding toHsl_def rgbToHsl_def
    by (simp add: Let_def bound01_Num_255_nat le r_def[symmetric] g_def[symmetric] b_def[symmetric] mx mn)
qed

section \<open>The ends of the saturation and lightness scales\<close>

lemma hue_weights_extreme:
  assumes "0 \<le> h" "h \<le> 1"
  shows "hue2rgb 0 1 (h + 1 / 3) = 1 \<or> hue2rgb 0 1 h = 1 \<or> hue2rgb 0 1 (h - 1 / 3) = 1"
    and "hue2rgb 0 1 (h + 1 / 3) = 0 \<or> hue2rgb 0 1 h = 0 \<or> hue2rgb 0 1 (h - 1 / 3) = 0"
proof -
  consider (a) "h \<le> 1 / 6" | (b) "1 / 6 \<le> h" "h < 1 / 3" | (c) "1 / 3 \<le> h" "h \<le> 1 / 2"
    | (d) "1 / 2 \<le> h" "h \<le> 2 / 3" | (e) "2 / 3 \<le> h" "h \<le> 5 / 6" | (f) "5 / 6 < h"
    by atomize_elim linarith
  then have "(hue2rgb 0 1 (h + 1 / 3) = 1 \<or> hue2rgb 0 1 h = 1 \<or> hue2rgb 0 1 (h - 1 / 3) = 1) \<and>
     (hue2rgb 0 1 (h + 1 / 3) = 0 \<or> hue2rgb 0 1 h = 0 \<or> hue2rgb 0 1 (h - 1 / 3) = 0)"
  proof cases
    case a
    have "hue2rgb 0 1 (h + 1 / 3) = 1" using assms a by (intro hue2rgb_weight(2)) linarith+
    moreover have "hue2rgb 0 1 (h - 1 / 3) = hue2rgb 0 1 (h - 1 / 3 + 1)"
      using assms a by (intro hue2rgb_weight(5)) linarith+
    moreover have "hue2rgb 0 1 (h - 1 / 3 + 1) = 0" using assms a by (intro hue2rgb_weight(4)) linarith+
    ultimately show ?thesis by simp
  next
    case b
    have "hue2rgb 0 1 h = 1" using b by (intro hue2rgb_weight(2)) linarith+
    moreover have "hue2rgb 0 1 (h - 1 / 3) = hue2rgb 0 1 (h - 1 / 3 + 1)"
      using b by (intro hue2rgb_weight(5)) linarith+
    moreover have "hue2rgb 0 1 (h - 1 / 3 + 1) = 0" using b by (intro hue2rgb_weight(4)) linarith+
    ultimately show ?thesis by simp
  next
    case c
    have "hue2rgb 0 1 h = 1" using c by (intro hue2rgb_weight(2)) linarith+
    moreover have "hue2rgb 0 1 (h + 1 / 3) = 0" using c by (intro hue2rgb_weight(4)) linarith+
    ultimately show ?thesis by simp
  next
    case d
    have "hue2rgb 0 1 (h - 1 / 3) = 1" using d by (intro hue2rgb_weight(2)) linarith+
    moreover have "hue2rgb 0 1 (h + 1 / 3) = 0" using d by (intro hue2rgb_weight(4)) linarith+
    ultimately show ?thesis by simp
  next
    case e
    have "hue2rgb 0 1 (h - 1 / 3) = 1" using e by (intro hue2rgb_weight(2)) linarith+
    moreover have "hue2rgb 0 1 h = 0" using e assms by (intro hue2rgb_weight(4)) linarith+
    ultimately show ?thesis by simp
  next
    case f
    have "hue2rgb 0 1 (h + 1 / 3) = hue2rgb 0 1 (h + 1 / 3 - 1)"
      using f assms by (intro hue2rgb_weight(6)) linarith+
    moreover have "hue2rgb 0 1 (h + 1 / 3 - 1) = 1" using f assms by (intro hue2rgb_weight(2)) linarith+
    moreover have "hue2rgb 0 1 h = 0" using f assms by (intro hue2rgb_weight(4)) linarith+
    ultimately show ?thesis by simp
  qed
  then show "hue2rgb 0 1 (h + 1 / 3) = 1 \<or> hue2rgb 0 1 h = 1 \<or> hue2rgb 0 1 (h - 1 / 3) = 1"
    and "hue2rgb 0 1 (h + 1 / 3) = 0 \<or> hue2rgb 0 1 h = 0 \<or> hue2rgb 0 1 (h - 1 / 3) = 0"
    by blast+
qed

text \<open>
  The channels that \<^verbatim>\<open>hslToRgb\<close> computes at the ends of the scales: no saturation
  gives a grey, lightness 0 black, lightness 1 white, and at full saturation one channel
  is 0 or one is 255.
\<close>

lemma hslToRgb_extremes:
  fixes S L H :: real
  defines "c \<equiv> hslToRgb (Num H) (convertToPercentage (Num S)) (convertToPercentage (Num L))"
  shows "S = 0 \<Longrightarrow> rgb_r c = rgb_g c \<and> rgb_g c = rgb_b c"
    and "L = 0 \<Longrightarrow> rgb_r c = 0 \<and> rgb_g c = 0 \<and> rgb_b c = 0"
    and "L = 1 \<Longrightarrow> rgb_r c = 255 \<and> rgb_g c = 255 \<and> rgb_b c = 255"
    and "S = 1 \<Longrightarrow> (rgb_r c = 0 \<or> rgb_g c = 0 \<or> rgb_b c = 0) \<or>
                    (rgb_r c = 255 \<or> rgb_g c = 255 \<or> rgb_b c = 255)"
proof -
  define h where "h = bound01 (Num H) 360"
  define s where "s = bound01 (convertToPercentage (Num S)) 100"
  define l where "l = bound01 (convertToPercentage (Num L)) 100"
  define q where "q = (if l < 1 / 2 then l * (1 + s) else l + s - l * s)"
  define p where "p = 2 * l - q"
  define w1 where "w1 = hue2rgb 0 1 (h + 1 / 3)"
  define w2 where "w2 = hue2rgb 0 1 h"
  define w3 where "w3 = hue2rgb 0 1 (h - 1 / 3)"
  have h: "0 \<le> h" "h \<le> 1" using bound01_360_range[of H] by (simp_all add: h_def)
  have c: "c = (if s = 0 then \<lparr>rgb_r = l * 255, rgb_g = l * 255, rgb_b = l * 255\<rparr>
      else \<lparr>rgb_r = (p + (q - p) * w1) * 255, rgb_g = (p + (q - p) * w2) * 255,
            rgb_b = (p + (q - p) * w3) * 255\<rparr>)"
    unfolding c_def hslToRgb_def Let_def h_def[symmetric] s_def[symmetric] l_def[symmetric]
      q_def[symmetric] p_def[symmetric] w1_def w2_def w3_def
    by (simp only: hue2rgb_affine[symmetric])
  show "rgb_r c = rgb_g c \<and> rgb_g c = rgb_b c" if "S = 0"
  proof -
    have "s = 0" unfolding s_def that by (rule normalised_percent_0)
    then show ?thesis unfolding c by simp
  qed
  show "rgb_r c = 0 \<and> rgb_g c = 0 \<and> rgb_b c = 0" if "L = 0"
  proof -
    have "l = 0" unfolding l_def that by (rule normalised_percent_0)
    then have "q = 0" "p = 0" by (simp_all add: q_def p_def)
    with \<open>l = 0\<close> show ?thesis unfolding c by simp
  qed
  show "rgb_r c = 255 \<and> rgb_g c = 255 \<and> rgb_b c = 255" if "L = 1"
  proof -
    have l1: "l = 1" unfolding l_def that by (rule normalised_percent_1)
    then have "q = 1" by (simp add: q_def)
    then have "p = 1" by (simp add: p_def l1)
    with \<open>l = 1\<close> \<open>q = 1\<close> show ?thesis unfolding c by simp
  qed
  show "(rgb_r c = 0 \<or> rgb_g c = 0 \<or> rgb_b c = 0) \<or>
        (rgb_r c = 255 \<or> rgb_g c = 255 \<or> rgb_b c = 255)" if "S = 1"
  proof -
    have s1: "s = 1" unfolding s_def that by (rule normalised_percent_1)
    have c1: "rgb_r c = (p + (q - p) * w1) * 255" "rgb_g c = (p + (q - p) * w2) * 255"
      "rgb_b c = (p + (q - p) * w3) * 255" unfolding c using s1 by simp_all
    show ?thesis
    proof (cases "l < 1 / 2")
      case True
      then have "p = 0" by (simp add: p_def q_def s1)
      moreover have "w1 = 0 \<or> w2 = 0 \<or> w3 = 0"
        unfolding w1_def w2_def w3_def by (rule hue_weights_extreme(2)[OF h])
      ultimately show ?thesis unfolding c1 by auto
    next
      case False
      then have "q = 1" by (simp add: q_def s1)
      moreover have "w1 = 1 \<or> w2 = 1 \<or> w3 = 1"
        unfolding w1_def w2_def w3_def by (rule hue_weights_extreme(1)[OF h])
      ultimately show ?thesis unfolding c1 by auto
    qed
  qed
qed

lemma rgbToHex_black: "rgbToHex 0 0 0 = ''000000''"
proof -
  have m: "Math_round 0 = int 0" by (simp add: Math_round_def)
  have p: "pad2 (toString16 (int 0)) = ''00''" by (subst pad2_toString16) simp_all
  show ?thesis by (simp only: rgbToHex_def m p) simp
qed

lemma rgbToHex_white: "rgbToHex 255 255 255 = ''ffffff''"
proof -
  have m: "Math_round 255 = int 255" by (simp add: Math_round_def)
  have p: "pad2 (toString16 (int 255)) = ''ff''" by (subst pad2_toString16) simp_all
  show ?thesis by (simp only: rgbToHex_def m p) simp
qed

text \<open>
  The colour made from an HSL object has channels that round to whole numbers of
  \<open>0..255\<close>; at the ends of the saturation and lightness scales these are as follows.
\<close>

lemma hsl_colour_channels:
  fixes y :: HSL
  defines "c1 \<equiv> new_TinyColor (hslInput y)"
  shows "\<exists>R G B. R \<le> 255 \<and> G \<le> 255 \<and> B \<le> 255 \<and>
     Math_round (tc_r c1) = int R \<and> Math_round (tc_g c1) = int G \<and> Math_round (tc_b c1) = int B \<and>
     (hsl_s y = 0 \<longrightarrow> R = G \<and> G = B) \<and>
     (hsl_l y = 0 \<longrightarrow> R = 0 \<and> G = 0 \<and> B = 0) \<and>
     (hsl_l y = 1 \<longrightarrow> R = 255 \<and> G = 255 \<and> B = 255) \<and>
     (hsl_s y = 1 \<longrightarrow> (R = 0 \<or> G = 0 \<or> B = 0) \<or> (R = 255 \<or> G = 255 \<or> B = 255))"
proof -
  define c where "c = hslToRgb (Num (hsl_h y)) (convertToPercentage (Num (hsl_s y)))
     (convertToPercentage (Num (hsl_l y)))"
  define K :: "real \<Rightarrow> int" where "K = (\<lambda>z. Math_round
     (if min 255 (max z 0) < 1 then of_int (Math_round (min 255 (max z 0))) else min 255 (max z 0)))"
  have t: "Math_round (tc_r c1) = K (rgb_r c)" "Math_round (tc_g c1) = K (rgb_g c)"
    "Math_round (tc_b c1) = K (rgb_b c)"
    unfolding c1_def new_TinyColor_hslInput K_def c_def by simp_all
  have K: "0 \<le> K z" "K z \<le> 255" for z
    unfolding K_def by (rule fixed_channel_range(3), rule fixed_channel_range(4))
  have K0: "K 0 = 0" and K255: "K 255 = 255" by (simp_all add: K_def Math_round_def)
  define R where "R = nat (K (rgb_r c))"
  define G where "G = nat (K (rgb_g c))"
  define B where "B = nat (K (rgb_b c))"
  have i: "K (rgb_r c) = int R" "K (rgb_g c) = int G" "K (rgb_b c) = int B"
    using K by (simp_all add: R_def G_def B_def)
  have le: "R \<le> 255" "G \<le> 255" "B \<le> 255"
    using K[of "rgb_r c"] K[of "rgb_g c"] K[of "rgb_b c"] by (simp_all add: R_def G_def B_def)
  note e = hslToRgb_extremes[where S = "hsl_s y" and H = "hsl_h y" and L = "hsl_l y", folded c_def]
  have 1: "R = G \<and> G = B" if "hsl_s y = 0"
    using e(1)[OF that] by (simp add: R_def G_def B_def)
  have 2: "R = 0 \<and> G = 0 \<and> B = 0" if "hsl_l y = 0"
    using e(2)[OF that] by (simp add: R_def G_def B_def K0)
  have 3: "R = 255 \<and> G = 255 \<and> B = 255" if "hsl_l y = 1"
    using e(3)[OF that] by (simp add: R_def G_def B_def K255)
  have 4: "(R = 0 \<or> G = 0 \<or> B = 0) \<or> (R = 255 \<or> G = 255 \<or> B = 255)" if "hsl_s y = 1"
  proof -
    from e(4)[OF that] consider "rgb_r c = 0" | "rgb_g c = 0" | "rgb_b c = 0"
      | "rgb_r c = 255" | "rgb_g c = 255" | "rgb_b c = 255" by blast
    then show ?thesis
      by cases (simp_all add: R_def G_def B_def K0 K255)
  qed
  show ?thesis
    apply (rule exI[of _ R], rule exI[of _ G], rule exI[of _ B])
    using le t i 1 2 3 4 by simp
qed

text \<open>Saturation and lightness of a colour with whole channels, at the ends of the scales.\<close>

lemma toHsl_nat_extremes:
  fixes R G B :: nat and f :: ColorFormat and v :: bool
  assumes le: "R \<le> 255" "G \<le> 255" "B \<le> 255"
  defines "x \<equiv> toHsl \<lparr>tc_r = real R, tc_g = real G, tc_b = real B, format = f, isValid = v\<rparr>"
  shows "R = G \<Longrightarrow> G = B \<Longrightarrow> hsl_s x = 0"
    and "R = 0 \<Longrightarrow> G = 0 \<Longrightarrow> B = 0 \<Longrightarrow> hsl_l x = 0"
    and "R = 255 \<Longrightarrow> G = 255 \<Longrightarrow> B = 255 \<Longrightarrow> hsl_l x = 1"
    and "(R = 0 \<or> G = 0 \<or> B = 0) \<or> (R = 255 \<or> G = 255 \<or> B = 255) \<Longrightarrow> \<not> (R = G \<and> G = B) \<Longrightarrow> hsl_s x = 1"
proof -
  define mx where "mx = real (max R (max G B)) / 255"
  define mn where "mn = real (min R (min G B)) / 255"
  note n = toHsl_nat[OF le, of f v, folded x_def mx_def mn_def]
  show "hsl_s x = 0" if "R = G" "G = B"
    unfolding n using that by (simp add: mx_def mn_def)
  show "hsl_l x = 0" if "R = 0" "G = 0" "B = 0"
    unfolding n using that by (simp add: mx_def mn_def)
  show "hsl_l x = 1" if "R = 255" "G = 255" "B = 255"
    unfolding n using that by (simp add: mx_def mn_def)
  show "hsl_s x = 1" if a: "(R = 0 \<or> G = 0 \<or> B = 0) \<or> (R = 255 \<or> G = 255 \<or> B = 255)"
    and b: "\<not> (R = G \<and> G = B)"
  proof -
    have lt: "min R (min G B) < max R (max G B)" using b by (auto simp: min_def max_def)
    then have ne: "mx \<noteq> mn" and lt': "mn < mx" by (simp_all add: mx_def mn_def divide_strict_right_mono)
    have r: "0 \<le> mn" "mx \<le> 1" using le by (simp_all add: mx_def mn_def)
    from a have "min R (min G B) = 0 \<or> max R (max G B) = 255" using le by (auto simp: min_def max_def)
    then have "mn = 0 \<or> mx = 1" by (auto simp: mx_def mn_def)
    then show ?thesis
    proof
      assume "mn = 0"
      then show ?thesis unfolding n using ne r lt' by simp
    next
      assume m: "mx = 1"
      show ?thesis
      proof (cases "mn = 0")
        case True
        then show ?thesis unfolding n using ne r lt' by simp
      next
        case False
        then have "0 < mn" using r by simp
        then show ?thesis unfolding n using ne m lt' by simp
      qed
    qed
  qed
qed

lemma adjustPalette_nth:
  "i < length prev \<Longrightarrow> adjustPalette adjustments prev ! i =
     colorData (new_TinyColor (hslInput (adjustHsl adjustments (toHsl (new_TinyColor (Str (hex (prev ! i))))))))"
  by (simp add: adjustPalette_def adjustColor_def Let_def)

lemma adjustHsl_fields:
  "hsl_h (adjustHsl adjustments x) = js_rem (hsl_h x + of_int (hue adjustments)) 360"
  "hsl_s (adjustHsl adjustments x) = max 0 (min 1 (hsl_s x + of_int (saturation adjustments) / 100))"
  "hsl_l (adjustHsl adjustments x) = max 0 (min 1 (hsl_l x + of_int (brightness adjustments) / 100))"
  by (simp_all add: adjustHsl_def Let_def)

text \<open>
  What is read back from the hexadecimal string of a colour made from an HSL object, at
  the ends of the saturation and lightness scales.
\<close>

lemma stored_hsl_extremes:
  fixes y :: HSL
  defines "h \<equiv> toHexString (new_TinyColor (hslInput y))"
  defines "st \<equiv> toHsl (new_TinyColor (Str h))"
  shows "0 \<le> hsl_s st \<and> hsl_s st \<le> 1 \<and> 0 \<le> hsl_l st \<and> hsl_l st \<le> 1"
    and "hsl_s y = 0 \<Longrightarrow> hsl_s st = 0"
    and "hsl_s y = 1 \<Longrightarrow> hsl_s st = (if h = ''#000000'' \<or> h = ''#ffffff'' then 0 else 1)"
    and "hsl_l y = 0 \<Longrightarrow> hsl_l st = 0 \<and> h = ''#000000''"
    and "hsl_l y = 1 \<Longrightarrow> hsl_l st = 1 \<and> h = ''#ffffff''"
proof -
  define c1 where "c1 = new_TinyColor (hslInput y)"
  from hsl_colour_channels[of y, folded c1_def] obtain R G B where
    le: "R \<le> 255" "G \<le> 255" "B \<le> 255"
    and m: "Math_round (tc_r c1) = int R" "Math_round (tc_g c1) = int G" "Math_round (tc_b c1) = int B"
    and s0: "hsl_s y = 0 \<longrightarrow> R = G \<and> G = B"
    and l0: "hsl_l y = 0 \<longrightarrow> R = 0 \<and> G = 0 \<and> B = 0"
    and l1: "hsl_l y = 1 \<longrightarrow> R = 255 \<and> G = 255 \<and> B = 255"
    and s1: "hsl_s y = 1 \<longrightarrow> (R = 0 \<or> G = 0 \<or> B = 0) \<or> (R = 255 \<or> G = 255 \<or> B = 255)"
    by blast
  have h: "h = CHR ''#'' # rgbToHex (real R) (real G) (real B)"
    unfolding h_def c1_def[symmetric] by (rule toHexString_rounded[OF m])
  have p: "new_TinyColor (Str h) =
      \<lparr>tc_r = real R, tc_g = real G, tc_b = real B, format = FormatHex, isValid = True\<rparr>"
    unfolding h_def c1_def[symmetric] by (rule stored_hex[OF m le])
  note ex = toHsl_nat_extremes[OF le, of FormatHex True, folded p, folded st_def]
  show "0 \<le> hsl_s st \<and> hsl_s st \<le> 1 \<and> 0 \<le> hsl_l st \<and> hsl_l st \<le> 1"
    unfolding st_def by (rule toHsl_range)
  show "hsl_s st = 0" if "hsl_s y = 0" using s0 that ex(1) by blast
  have black: "h = ''#000000''" if "R = 0" "G = 0" "B = 0"
    unfolding h using that rgbToHex_black by simp
  have white: "h = ''#ffffff''" if "R = 255" "G = 255" "B = 255"
    unfolding h using that rgbToHex_white by simp
  have pb: "new_TinyColor (Str ''#000000'') =
      \<lparr>tc_r = real 0, tc_g = real 0, tc_b = real 0, format = FormatHex, isValid = True\<rparr>"
    using new_TinyColor_RgbObj(2)[OF _ _ _ stringInputToObject_hex6, of 0 0 0] rgbToHex_black by simp
  have pw: "new_TinyColor (Str ''#ffffff'') =
      \<lparr>tc_r = real 255, tc_g = real 255, tc_b = real 255, format = FormatHex, isValid = True\<rparr>"
    using new_TinyColor_RgbObj(2)[OF _ _ _ stringInputToObject_hex6, of 255 255 255] rgbToHex_white by simp
  have black': "R = 0 \<and> G = 0 \<and> B = 0" if "h = ''#000000''"
    using p pb unfolding that by simp
  have white': "R = 255 \<and> G = 255 \<and> B = 255" if "h = ''#ffffff''"
    using p pw unfolding that by simp
  show "hsl_l st = 0 \<and> h = ''#000000''" if "hsl_l y = 0"
    using l0 that ex(2) black by blast
  show "hsl_l st = 1 \<and> h = ''#ffffff''" if "hsl_l y = 1"
    using l1 that ex(3) white by blast
  show "hsl_s st = (if h = ''#000000'' \<or> h = ''#ffffff'' then 0 else 1)" if a: "hsl_s y = 1"
  proof (cases "R = G \<and> G = B")
    case True
    with s1 a have "(R = 0 \<and> G = 0 \<and> B = 0) \<or> (R = 255 \<and> G = 255 \<and> B = 255)" by auto
    then have "h = ''#000000'' \<or> h = ''#ffffff''" using black white by blast
    moreover have "hsl_s st = 0" using True ex(1) by blast
    ultimately show ?thesis by simp
  next
    case False
    have "hsl_s st = 1" using s1 a False ex(4) by blast
    moreover have "\<not> (h = ''#000000'' \<or> h = ''#ffffff'')" using False black' white' by auto
    ultimately show ?thesis by simp
  qed
qed

section \<open>Adjustments compound (C2)\<close>

text \<open>
  Claim C2. \<^verbatim>\<open>adjustPalette\<close> rebuilds the HSL values of an entry from the
  hexadecimal string the entry holds at that moment, so applying the same adjustment again
  starts from the adjusted colour: for the palette of the one entry \<^verbatim>\<open>#ff0000\<close> and
  the adjustment of 60 degrees of hue, one application stores \<^verbatim>\<open>#ffff00\<close> and two
  store \<^verbatim>\<open>#00ff00\<close>. Hence there are a palette and an adjustment other than zero
  for which two applications differ from one.
\<close>

theorem adjustPalette_cumulative:
  "adjustColor adjustments color =
     colorData (new_TinyColor (hslInput (adjustHsl adjustments (toHsl (new_TinyColor (Str (hex color))))))) \<and>
   map hex (adjustPalette \<lparr>hue = 60, saturation = 0, brightness = 0\<rparr>
              [colorData (new_TinyColor (Str ''#ff0000''))]) = [''#ffff00''] \<and>
   map hex (adjustPalette \<lparr>hue = 60, saturation = 0, brightness = 0\<rparr>
              (adjustPalette \<lparr>hue = 60, saturation = 0, brightness = 0\<rparr>
                 [colorData (new_TinyColor (Str ''#ff0000''))])) = [''#00ff00''] \<and>
   (\<exists>prev a. a \<noteq> \<lparr>hue = 0, saturation = 0, brightness = 0\<rparr> \<and>
      adjustPalette a (adjustPalette a prev) \<noteq> adjustPalette a prev)"
proof -
  let ?a = "\<lparr>hue = 60, saturation = 0, brightness = 0\<rparr>"
  let ?red = "colorData (new_TinyColor (Str ''#ff0000''))"
  have def: "adjustColor adjustments color =
     colorData (new_TinyColor (hslInput (adjustHsl adjustments (toHsl (new_TinyColor (Str (hex color)))))))"
    by (simp add: adjustColor_def Let_def)
  have p0: "new_TinyColor (Str ''#ff0000'') =
      \<lparr>tc_r = 255, tc_g = 0, tc_b = 0, format = FormatHex, isValid = True\<rparr>" by code_simp
  have x0: "toHexString \<lparr>tc_r = 255, tc_g = 0, tc_b = 0, format = FormatHex, isValid = True\<rparr> = ''#ff0000''"
    by code_simp
  have h0: "toHsl \<lparr>tc_r = 255, tc_g = 0, tc_b = 0, format = FormatHex, isValid = True\<rparr> =
      \<lparr>hsl_h = 0, hsl_s = 1, hsl_l = 1 / 2\<rparr>" by code_simp
  have a0: "adjustHsl ?a \<lparr>hsl_h = 0, hsl_s = 1, hsl_l = 1 / 2\<rparr> = \<lparr>hsl_h = 60, hsl_s = 1, hsl_l = 1 / 2\<rparr>"
    by code_simp
  have n1: "new_TinyColor (hslInput \<lparr>hsl_h = 60, hsl_s = 1, hsl_l = 1 / 2\<rparr>) =
      \<lparr>tc_r = 255, tc_g = 255, tc_b = 0, format = FormatHsl, isValid = True\<rparr>" by code_simp
  have x1: "toHexString \<lparr>tc_r = 255, tc_g = 255, tc_b = 0, format = FormatHsl, isValid = True\<rparr> = ''#ffff00''"
    by code_simp
  have p1: "new_TinyColor (Str ''#ffff00'') =
      \<lparr>tc_r = 255, tc_g = 255, tc_b = 0, format = FormatHex, isValid = True\<rparr>" by code_simp
  have h1: "toHsl \<lparr>tc_r = 255, tc_g = 255, tc_b = 0, format = FormatHex, isValid = True\<rparr> =
      \<lparr>hsl_h = 60, hsl_s = 1, hsl_l = 1 / 2\<rparr>" by code_simp
  have a1: "adjustHsl ?a \<lparr>hsl_h = 60, hsl_s = 1, hsl_l = 1 / 2\<rparr> = \<lparr>hsl_h = 120, hsl_s = 1, hsl_l = 1 / 2\<rparr>"
    by code_simp
  have n2: "new_TinyColor (hslInput \<lparr>hsl_h = 120, hsl_s = 1, hsl_l = 1 / 2\<rparr>) =
      \<lparr>tc_r = 0, tc_g = 255, tc_b = 0, format = FormatHsl, isValid = True\<rparr>" by code_simp
  have x2: "toHexString \<lparr>tc_r = 0, tc_g = 255, tc_b = 0, format = FormatHsl, isValid = True\<rparr> = ''#00ff00''"
    by code_simp
  have hred: "hex ?red = ''#ff0000''" by (simp add: colorData_def p0 x0)
  have "hex (adjustColor ?a ?red) =
      toHexString (new_TinyColor (hslInput (adjustHsl ?a (toHsl (new_TinyColor (Str ''#ff0000''))))))"
    by (simp only: hex_adjustColor hred)
  also have "\<dots> = ''#ffff00''" by (simp only: p0 h0 a0 n1 x1)
  finally have once: "hex (adjustColor ?a ?red) = ''#ffff00''" .
  have "hex (adjustColor ?a (adjustColor ?a ?red)) =
      toHexString (new_TinyColor (hslInput (adjustHsl ?a (toHsl (new_TinyColor (Str ''#ffff00''))))))"
    by (simp only: hex_adjustColor[of ?a "adjustColor ?a ?red"] once)
  also have "\<dots> = ''#00ff00''" by (simp only: p1 h1 a1 n2 x2)
  finally have twice: "hex (adjustColor ?a (adjustColor ?a ?red)) = ''#00ff00''" .
  have m1: "map hex (adjustPalette ?a [?red]) = [''#ffff00'']"
    using once by (simp add: adjustPalette_def)
  have m2: "map hex (adjustPalette ?a (adjustPalette ?a [?red])) = [''#00ff00'']"
    using twice by (simp add: adjustPalette_def)
  have "?a \<noteq> \<lparr>hue = 0, saturation = 0, brightness = 0\<rparr>" by simp
  moreover have "adjustPalette ?a (adjustPalette ?a [?red]) \<noteq> adjustPalette ?a [?red]"
  proof
    assume "adjustPalette ?a (adjustPalette ?a [?red]) = adjustPalette ?a [?red]"
    then have "map hex (adjustPalette ?a (adjustPalette ?a [?red])) = map hex (adjustPalette ?a [?red])"
      by simp
    then show False unfolding m1 m2 by simp
  qed
  ultimately have ex: "\<exists>prev a. a \<noteq> \<lparr>hue = 0, saturation = 0, brightness = 0\<rparr> \<and>
      adjustPalette a (adjustPalette a prev) \<noteq> adjustPalette a prev" by blast
  show ?thesis using def m1 m2 ex by blast
qed

section \<open>A string that is no colour (C4)\<close>

text \<open>
  Claim C4 says that a string which cannot be parsed is refused with
  \<^verbatim>\<open>InvalidColorFormat\<close> and never silently taken for black. The code has no such
  error: the constructor marks the colour as not valid and leaves its channels at 0, and
  neither \<^verbatim>\<open>handleColorChange\<close> nor \<^verbatim>\<open>getShades\<close> looks at the mark. At the
  string \<^verbatim>\<open>#gggggg\<close> the slot receives the entry of black and the shades are those
  of black.
\<close>

theorem invalid_color_coerced_to_black_counterexample:
  "noMatcherAccepts ''#gggggg'' \<and>
   isValid (new_TinyColor (Str ''#gggggg'')) = False \<and>
   handleColorChange 0 ''#gggggg'' [colorData (new_TinyColor (Str ''#ff0000''))] =
     [\<lparr>hex = ''#000000'', name = ''Dark Muted Red'', rgb = ''rgb(0, 0, 0)'',
       hsl = ''hsl(0, 0%, 0%)'', hsv = ''hsv(0, 0%, 0%)'', cmyk = ''cmyk(0, 0, 0, 100)''\<rparr>] \<and>
   getShades ''#gggggg'' = [''#000000'', ''#000000'', ''#000000'', ''#1a1a1a'', ''#333333'']"
proof -
  have n: "noMatcherAccepts ''#gggggg''" by code_simp
  have b: "new_TinyColor (Str ''#gggggg'') =
      \<lparr>tc_r = 0, tc_g = 0, tc_b = 0, format = FormatFalse, isValid = False\<rparr>"
    by (rule new_TinyColor_rejected[OF noMatcherAccepts_None[OF n]])
  have g: "getShades ''#gggggg'' = [''#000000'', ''#000000'', ''#000000'', ''#1a1a1a'', ''#333333'']"
    unfolding getShades_offsets b by (rule shades_black)
  show ?thesis
    by (simp add: n b handleColorChange_update colorData_black g)
qed

text \<open>
  Claim C4, amended. Take a string that no notation of the package accepts: trimmed and in
  lower case it is empty, or it has a character that is not a letter, contains none of the
  words \<^verbatim>\<open>rgb\<close>, \<^verbatim>\<open>hsl\<close>, \<^verbatim>\<open>hsv\<close>, \<^verbatim>\<open>cmyk\<close>, and is not 3, 4, 6 or
  8 hexadecimal digits behind an optional \<^verbatim>\<open>#\<close>. For every such string the
  constructor returns the colour with all channels 0, marked as not valid and without a
  format; nothing fails. \<^verbatim>\<open>handleColorChange\<close> then stores the entry of black
  (\<^verbatim>\<open>#000000\<close>, named \<^verbatim>\<open>Dark Muted Red\<close>) in the slot and leaves the other
  slots as they were, and \<^verbatim>\<open>getShades\<close> returns the five shades of black.
\<close>

theorem invalid_color_is_black:
  "noMatcherAccepts newColor \<Longrightarrow>
     new_TinyColor (Str newColor) =
       \<lparr>tc_r = 0, tc_g = 0, tc_b = 0, format = FormatFalse, isValid = False\<rparr> \<and>
     handleColorChange index newColor prev =
       prev[index := \<lparr>hex = ''#000000'', name = ''Dark Muted Red'', rgb = ''rgb(0, 0, 0)'',
         hsl = ''hsl(0, 0%, 0%)'', hsv = ''hsv(0, 0%, 0%)'', cmyk = ''cmyk(0, 0, 0, 100)''\<rparr>] \<and>
     getShades newColor = [''#000000'', ''#000000'', ''#000000'', ''#1a1a1a'', ''#333333'']"
proof -
  assume n: "noMatcherAccepts newColor"
  have b: "new_TinyColor (Str newColor) =
      \<lparr>tc_r = 0, tc_g = 0, tc_b = 0, format = FormatFalse, isValid = False\<rparr>"
    by (rule new_TinyColor_rejected[OF noMatcherAccepts_None[OF n]])
  have g: "getShades newColor = [''#000000'', ''#000000'', ''#000000'', ''#1a1a1a'', ''#333333'']"
    unfolding getShades_offsets b by (rule shades_black)
  show ?thesis
    by (simp add: b handleColorChange_update colorData_black g)
qed

theorem invalid_color_is_black_witness:
  "noMatcherAccepts ''#12345'' \<and>
   new_TinyColor (Str ''#12345'') =
     \<lparr>tc_r = 0, tc_g = 0, tc_b = 0, format = FormatFalse, isValid = False\<rparr> \<and>
   handleColorChange 1 ''#12345''
     [\<lparr>hex = ''#ff0000'', name = ''Vibrant Red'', rgb = ''rgb(255, 0, 0)'',
        hsl = ''hsl(0, 100%, 50%)'', hsv = ''hsv(0, 100%, 100%)'', cmyk = ''cmyk(0, 100, 100, 0)''\<rparr>,
      \<lparr>hex = ''#00ff00'', name = ''Vibrant Yellow'', rgb = ''rgb(0, 255, 0)'',
        hsl = ''hsl(120, 100%, 50%)'', hsv = ''hsv(120, 100%, 100%)'', cmyk = ''cmyk(100, 0, 100, 0)''\<rparr>] =
     [\<lparr>hex = ''#ff0000'', name = ''Vibrant Red'', rgb = ''rgb(255, 0, 0)'',
        hsl = ''hsl(0, 100%, 50%)'', hsv = ''hsv(0, 100%, 100%)'', cmyk = ''cmyk(0, 100, 100, 0)''\<rparr>,
      \<lparr>hex = ''#000000'', name = ''Dark Muted Red'', rgb = ''rgb(0, 0, 0)'',
        hsl = ''hsl(0, 0%, 0%)'', hsv = ''hsv(0, 0%, 0%)'', cmyk = ''cmyk(0, 0, 0, 100)''\<rparr>] \<and>
   getShades ''#12345'' = [''#000000'', ''#000000'', ''#000000'', ''#1a1a1a'', ''#333333'']"
proof -
  have n: "noMatcherAccepts ''#12345''" by code_simp
  from invalid_color_is_black [OF n, of 1
     "[\<lparr>hex = ''#ff0000'', name = ''Vibrant Red'', rgb = ''rgb(255, 0, 0)'',
        hsl = ''hsl(0, 100%, 50%)'', hsv = ''hsv(0, 100%, 100%)'', cmyk = ''cmyk(0, 100, 100, 0)''\<rparr>,
      \<lparr>hex = ''#00ff00'', name = ''Vibrant Yellow'', rgb = ''rgb(0, 255, 0)'',
        hsl = ''hsl(120, 100%, 50%)'', hsv = ''hsv(120, 100%, 100%)'', cmyk = ''cmyk(100, 0, 100, 0)''\<rparr>]"] n
  show ?thesis by simp
qed

section \<open>Saturation and lightness stay in range (C5)\<close>

text \<open>
  Claim C5. Take a palette, a slot \<open>i\<close> of it whose entry holds a string in hexadecimal
  notation, and an adjustment. \<^verbatim>\<open>adjustPalette\<close> keeps the number of entries and
  stores in the slot the entry of the colour built from the HSL values of lines 63 to 65,
  whose saturation and lightness are the sums with the adjustment clamped to \<open>[0, 1]\<close>.
  The saturation and the lightness of the stored colour, read back from the stored
  hexadecimal string as the next adjustment reads them, lie in \<open>[0, 1]\<close>. When the
  lightness sum falls below 0 the stored colour is black (\<^verbatim>\<open>#000000\<close>, lightness 0);
  when it exceeds 1 the stored colour is white (\<^verbatim>\<open>#ffffff\<close>, lightness 1). When the
  saturation sum falls below 0 the stored saturation is 0; when it exceeds 1 the stored
  saturation is 1, except that it is 0 when the stored colour is black or white. So
  whenever a sum leaves \<open>[0, 1]\<close> the stored value is exactly 0 or exactly 1.
\<close>

theorem adjustPalette_clamped:
  assumes "i < length prev" and "stringInputToObject (hex (prev ! i)) \<noteq> None"
  shows "let x = toHsl (new_TinyColor (Str (hex (prev ! i))));
             s1 = hsl_s x + real_of_int (saturation adjustments) / 100;
             l1 = hsl_l x + real_of_int (brightness adjustments) / 100;
             x' = adjustHsl adjustments x;
             e = adjustPalette adjustments prev ! i;
             stored = toHsl (new_TinyColor (Str (hex e)))
         in length (adjustPalette adjustments prev) = length prev \<and>
            e = colorData (new_TinyColor (hslInput x')) \<and>
            hsl_s x' = max 0 (min 1 s1) \<and> hsl_l x' = max 0 (min 1 l1) \<and>
            0 \<le> hsl_s stored \<and> hsl_s stored \<le> 1 \<and> 0 \<le> hsl_l stored \<and> hsl_l stored \<le> 1 \<and>
            (s1 < 0 \<longrightarrow> hsl_s x' = 0 \<and> hsl_s stored = 0) \<and>
            (1 < s1 \<longrightarrow> hsl_s x' = 1 \<and>
               hsl_s stored = (if hex e = ''#000000'' \<or> hex e = ''#ffffff'' then 0 else 1)) \<and>
            (l1 < 0 \<longrightarrow> hsl_l x' = 0 \<and> hsl_l stored = 0 \<and> hex e = ''#000000'') \<and>
            (1 < l1 \<longrightarrow> hsl_l x' = 1 \<and> hsl_l stored = 1 \<and> hex e = ''#ffffff'')"
proof -
  define x where "x = toHsl (new_TinyColor (Str (hex (prev ! i))))"
  define s1 where "s1 = hsl_s x + real_of_int (saturation adjustments) / 100"
  define l1 where "l1 = hsl_l x + real_of_int (brightness adjustments) / 100"
  define x' where "x' = adjustHsl adjustments x"
  define e where "e = adjustPalette adjustments prev ! i"
  define stored where "stored = toHsl (new_TinyColor (Str (hex e)))"
  have len: "length (adjustPalette adjustments prev) = length prev" by (simp add: adjustPalette_def)
  have e: "e = colorData (new_TinyColor (hslInput x'))"
    unfolding e_def x'_def x_def by (rule adjustPalette_nth[OF assms(1)])
  have he: "hex e = toHexString (new_TinyColor (hslInput x'))" unfolding e by (simp add: colorData_def)
  have s: "hsl_s x' = max 0 (min 1 s1)" unfolding x'_def s1_def by (rule adjustHsl_fields(2))
  have l: "hsl_l x' = max 0 (min 1 l1)" unfolding x'_def l1_def by (rule adjustHsl_fields(3))
  note st = stored_hsl_extremes[of x', folded he, folded stored_def]
  have a: "s1 < 0 \<longrightarrow> hsl_s x' = 0 \<and> hsl_s stored = 0"
  proof
    assume "s1 < 0"
    then have "hsl_s x' = 0" unfolding s by simp
    with st(2) show "hsl_s x' = 0 \<and> hsl_s stored = 0" by blast
  qed
  have b: "1 < s1 \<longrightarrow> hsl_s x' = 1 \<and>
      hsl_s stored = (if hex e = ''#000000'' \<or> hex e = ''#ffffff'' then 0 else 1)"
  proof
    assume "1 < s1"
    then have "hsl_s x' = 1" unfolding s by simp
    with st(3) show "hsl_s x' = 1 \<and>
      hsl_s stored = (if hex e = ''#000000'' \<or> hex e = ''#ffffff'' then 0 else 1)" by blast
  qed
  have c: "l1 < 0 \<longrightarrow> hsl_l x' = 0 \<and> hsl_l stored = 0 \<and> hex e = ''#000000''"
  proof
    assume "l1 < 0"
    then have "hsl_l x' = 0" unfolding l by simp
    with st(4) show "hsl_l x' = 0 \<and> hsl_l stored = 0 \<and> hex e = ''#000000''" by blast
  qed
  have d: "1 < l1 \<longrightarrow> hsl_l x' = 1 \<and> hsl_l stored = 1 \<and> hex e = ''#ffffff''"
  proof
    assume "1 < l1"
    then have "hsl_l x' = 1" unfolding l by simp
    with st(5) show "hsl_l x' = 1 \<and> hsl_l stored = 1 \<and> hex e = ''#ffffff''" by blast
  qed
  have "length (adjustPalette adjustments prev) = length prev \<and>
            e = colorData (new_TinyColor (hslInput x')) \<and>
            hsl_s x' = max 0 (min 1 s1) \<and> hsl_l x' = max 0 (min 1 l1) \<and>
            0 \<le> hsl_s stored \<and> hsl_s stored \<le> 1 \<and> 0 \<le> hsl_l stored \<and> hsl_l stored \<le> 1 \<and>
            (s1 < 0 \<longrightarrow> hsl_s x' = 0 \<and> hsl_s stored = 0) \<and>
            (1 < s1 \<longrightarrow> hsl_s x' = 1 \<and>
               hsl_s stored = (if hex e = ''#000000'' \<or> hex e = ''#ffffff'' then 0 else 1)) \<and>
            (l1 < 0 \<longrightarrow> hsl_l x' = 0 \<and> hsl_l stored = 0 \<and> hex e = ''#000000'') \<and>
            (1 < l1 \<longrightarrow> hsl_l x' = 1 \<and> hsl_l stored = 1 \<and> hex e = ''#ffffff'')"
    using len e s l st(1) a b c d by blast
  then show ?thesis
    unfolding Let_def x_def s1_def l1_def x'_def e_def stored_def .
qed

theorem adjustPalette_clamped_witness:
  "hex (adjustPalette \<lparr>hue = 0, saturation = 100, brightness = - 100\<rparr>
          [\<lparr>hex = ''#bf4040'', name = ''Muted Red'', rgb = ''rgb(191, 64, 64)'',
             hsl = ''hsl(0, 50%, 50%)'', hsv = ''hsv(0, 66%, 75%)'', cmyk = ''cmyk(0, 66, 66, 25)''\<rparr>] ! 0)
     = ''#000000'' \<and>
   hsl_s (toHsl (new_TinyColor (Str (hex (adjustPalette \<lparr>hue = 0, saturation = 100, brightness = - 100\<rparr>
          [\<lparr>hex = ''#bf4040'', name = ''Muted Red'', rgb = ''rgb(191, 64, 64)'',
             hsl = ''hsl(0, 50%, 50%)'', hsv = ''hsv(0, 66%, 75%)'', cmyk = ''cmyk(0, 66, 66, 25)''\<rparr>] ! 0)))))
     = 0 \<and>
   hsl_l (toHsl (new_TinyColor (Str (hex (adjustPalette \<lparr>hue = 0, saturation = 100, brightness = - 100\<rparr>
          [\<lparr>hex = ''#bf4040'', name = ''Muted Red'', rgb = ''rgb(191, 64, 64)'',
             hsl = ''hsl(0, 50%, 50%)'', hsv = ''hsv(0, 66%, 75%)'', cmyk = ''cmyk(0, 66, 66, 25)''\<rparr>] ! 0)))))
     = 0 \<and>
   hex (adjustPalette \<lparr>hue = 0, saturation = - 100, brightness = 100\<rparr>
          [\<lparr>hex = ''#bf4040'', name = ''Muted Red'', rgb = ''rgb(191, 64, 64)'',
             hsl = ''hsl(0, 50%, 50%)'', hsv = ''hsv(0, 66%, 75%)'', cmyk = ''cmyk(0, 66, 66, 25)''\<rparr>] ! 0)
     = ''#ffffff'' \<and>
   hsl_s (toHsl (new_TinyColor (Str (hex (adjustPalette \<lparr>hue = 0, saturation = - 100, brightness = 100\<rparr>
          [\<lparr>hex = ''#bf4040'', name = ''Muted Red'', rgb = ''rgb(191, 64, 64)'',
             hsl = ''hsl(0, 50%, 50%)'', hsv = ''hsv(0, 66%, 75%)'', cmyk = ''cmyk(0, 66, 66, 25)''\<rparr>] ! 0)))))
     = 0 \<and>
   hsl_l (toHsl (new_TinyColor (Str (hex (adjustPalette \<lparr>hue = 0, saturation = - 100, brightness = 100\<rparr>
          [\<lparr>hex = ''#bf4040'', name = ''Muted Red'', rgb = ''rgb(191, 64, 64)'',
             hsl = ''hsl(0, 50%, 50%)'', hsv = ''hsv(0, 66%, 75%)'', cmyk = ''cmyk(0, 66, 66, 25)''\<rparr>] ! 0)))))
     = 1"
proof -
  let ?e = "\<lparr>hex = ''#bf4040'', name = ''Muted Red'', rgb = ''rgb(191, 64, 64)'',
             hsl = ''hsl(0, 50%, 50%)'', hsv = ''hsv(0, 66%, 75%)'', cmyk = ''cmyk(0, 66, 66, 25)''\<rparr>"
  let ?a = "\<lparr>hue = 0, saturation = 100, brightness = - 100\<rparr>"
  let ?b = "\<lparr>hue = 0, saturation = - 100, brightness = 100\<rparr>"
  have hx: "hex ([?e] ! 0) = ''#bf4040''" by simp
  have i: "0 < length [?e]" by simp
  have v: "stringInputToObject (hex ([?e] ! 0)) \<noteq> None" unfolding hx by code_simp
  have p: "new_TinyColor (Str ''#bf4040'') =
      \<lparr>tc_r = 191, tc_g = 64, tc_b = 64, format = FormatHex, isValid = True\<rparr>" by code_simp
  have x: "toHsl \<lparr>tc_r = 191, tc_g = 64, tc_b = 64, format = FormatHex, isValid = True\<rparr> =
      \<lparr>hsl_h = 0, hsl_s = 127 / 255, hsl_l = 1 / 2\<rparr>" by code_simp
  have x0: "toHsl (new_TinyColor (Str (hex ([?e] ! 0)))) = \<lparr>hsl_h = 0, hsl_s = 127 / 255, hsl_l = 1 / 2\<rparr>"
    unfolding hx p x ..
  have a1: "1 < hsl_s (toHsl (new_TinyColor (Str (hex ([?e] ! 0))))) + real_of_int (saturation ?a) / 100"
    and a2: "hsl_l (toHsl (new_TinyColor (Str (hex ([?e] ! 0))))) + real_of_int (brightness ?a) / 100 < 0"
    and b1: "hsl_s (toHsl (new_TinyColor (Str (hex ([?e] ! 0))))) + real_of_int (saturation ?b) / 100 < 0"
    and b2: "1 < hsl_l (toHsl (new_TinyColor (Str (hex ([?e] ! 0))))) + real_of_int (brightness ?b) / 100"
    unfolding x0 by simp_all
  note A = adjustPalette_clamped [OF i v, of ?a, unfolded Let_def]
  note B = adjustPalette_clamped [OF i v, of ?b, unfolded Let_def]
  from A a1 a2 have A': "hex (adjustPalette ?a [?e] ! 0) = ''#000000''"
    "hsl_l (toHsl (new_TinyColor (Str (hex (adjustPalette ?a [?e] ! 0))))) = 0"
    "hsl_s (toHsl (new_TinyColor (Str (hex (adjustPalette ?a [?e] ! 0))))) =
       (if hex (adjustPalette ?a [?e] ! 0) = ''#000000'' \<or> hex (adjustPalette ?a [?e] ! 0) = ''#ffffff''
        then 0 else 1)"
    by blast+
  from B b1 b2 have B': "hex (adjustPalette ?b [?e] ! 0) = ''#ffffff''"
    "hsl_l (toHsl (new_TinyColor (Str (hex (adjustPalette ?b [?e] ! 0))))) = 1"
    "hsl_s (toHsl (new_TinyColor (Str (hex (adjustPalette ?b [?e] ! 0))))) = 0"
    by blast+
  have A3: "hsl_s (toHsl (new_TinyColor (Str (hex (adjustPalette ?a [?e] ! 0))))) = 0"
    unfolding A'(3) using A'(1) by simp
  show ?thesis using A'(1,2) A3 B' by blast
qed

section \<open>The generated name (C7)\<close>

text \<open>
  Claim C7. \<^verbatim>\<open>generateColorName\<close> is a function of the hue, saturation and lightness
  of the colour alone. The saturation word is \<^verbatim>\<open>Vibrant\<close> exactly when the saturation
  exceeds 0.5 and \<^verbatim>\<open>Muted\<close> otherwise; the lightness word is \<^verbatim>\<open>Light\<close> exactly
  above 0.7, \<^verbatim>\<open>Dark\<close> exactly below 0.3 and empty in between; the name is the
  lightness word, the saturation word and the hue word, separated by one space, with no
  leading space when the lightness word is empty. The colour with hue 0, saturation 0.7
  and lightness 0.5 is named \<^verbatim>\<open>Vibrant Red\<close>.
\<close>

theorem generateColorName_labels:
  "generateColorName color =
     (if hsl_l (toHsl color) > 7 / 10 then ''Light ''
      else if hsl_l (toHsl color) < 3 / 10 then ''Dark '' else []) @
     (if hsl_s (toHsl color) > 1 / 2 then ''Vibrant'' else ''Muted'') @ '' '' @
     arrayGet hueNames (hueIndex (hsl_h (toHsl color))) \<and>
   (\<exists>f. \<forall>c. generateColorName c = f (hsl_h (toHsl c)) (hsl_s (toHsl c)) (hsl_l (toHsl c))) \<and>
   (saturationWord s = ''Vibrant'') = (s > 1 / 2) \<and>
   (saturationWord s = ''Muted'') = (\<not> s > 1 / 2) \<and>
   (lightnessWord l = ''Light'') = (l > 7 / 10) \<and>
   (lightnessWord l = ''Dark'') = (l < 3 / 10) \<and>
   (lightnessWord l = []) = (3 / 10 \<le> l \<and> l \<le> 7 / 10) \<and>
   toHsl (new_TinyColor (hslInput \<lparr>hsl_h = 0, hsl_s = 7 / 10, hsl_l = 1 / 2\<rparr>)) =
     \<lparr>hsl_h = 0, hsl_s = 7 / 10, hsl_l = 1 / 2\<rparr> \<and>
   generateColorName (new_TinyColor (hslInput \<lparr>hsl_h = 0, hsl_s = 7 / 10, hsl_l = 1 / 2\<rparr>)) =
     ''Vibrant Red''"
proof -
  have det: "\<exists>f. \<forall>c. generateColorName c = f (hsl_h (toHsl c)) (hsl_s (toHsl c)) (hsl_l (toHsl c))"
    by (rule exI[of _ "\<lambda>h s l. (if l > 7 / 10 then ''Light '' else if l < 3 / 10 then ''Dark '' else []) @
          (if s > 1 / 2 then ''Vibrant'' else ''Muted'') @ '' '' @ arrayGet hueNames (hueIndex h)"])
       (simp add: generateColorName_eq)
  have c: "new_TinyColor (hslInput \<lparr>hsl_h = 0, hsl_s = 7 / 10, hsl_l = 1 / 2\<rparr>) =
     \<lparr>tc_r = 867 / 4, tc_g = 153 / 4, tc_b = 153 / 4, format = FormatHsl, isValid = True\<rparr>"
    by code_simp
  have h: "toHsl \<lparr>tc_r = 867 / 4, tc_g = 153 / 4, tc_b = 153 / 4, format = FormatHsl, isValid = True\<rparr> =
     \<lparr>hsl_h = 0, hsl_s = 7 / 10, hsl_l = 1 / 2\<rparr>"
    by code_simp
  have n: "generateColorName \<lparr>tc_r = 867 / 4, tc_g = 153 / 4, tc_b = 153 / 4, format = FormatHsl, isValid = True\<rparr> = ''Vibrant Red''"
    by code_simp
  have w: "(saturationWord s = ''Vibrant'') = (s > 1 / 2)" "(saturationWord s = ''Muted'') = (\<not> s > 1 / 2)"
    "(lightnessWord l = ''Light'') = (l > 7 / 10)" "(lightnessWord l = ''Dark'') = (l < 3 / 10)"
    "(lightnessWord l = []) = (3 / 10 \<le> l \<and> l \<le> 7 / 10)"
    by (auto simp: saturationWord_def lightnessWord_def)
  show ?thesis
    using generateColorName_eq[of color] det w
    unfolding c h n by blast
qed

section \<open>The hue word is one of six (C8)\<close>

text \<open>
  Claim C8. The hue of every colour lies in \<open>[0, 360)\<close>, so the index into the array
  of hue words is one of 0 to 5: the access is in bounds, the hue word of the name is one
  of Red, Orange, Yellow, Green, Blue and Purple, and no name ends in Pink. For any hue
  of \<open>[0, 360)\<close> the index is one of 0 to 5.
\<close>

theorem hueIndex_in_bounds:
  "0 \<le> hsl_h (toHsl color) \<and> hsl_h (toHsl color) < 360 \<and>
   0 \<le> hueIndex (hsl_h (toHsl color)) \<and> hueIndex (hsl_h (toHsl color)) \<le> 5 \<and>
   arrayGet hueNames (hueIndex (hsl_h (toHsl color))) \<in>
     set [''Red'', ''Orange'', ''Yellow'', ''Green'', ''Blue'', ''Purple''] \<and>
   (\<exists>pre w. w \<in> set [''Red'', ''Orange'', ''Yellow'', ''Green'', ''Blue'', ''Purple''] \<and>
      generateColorName color = pre @ '' '' @ w) \<and>
   \<not> (\<exists>pre. generateColorName color = pre @ ''Pink'') \<and>
   (0 \<le> h \<and> h < 360 \<longrightarrow>
      0 \<le> hueIndex h \<and> hueIndex h \<le> 5 \<and>
      arrayGet hueNames (hueIndex h) \<in>
        set [''Red'', ''Orange'', ''Yellow'', ''Green'', ''Blue'', ''Purple''])"
proof -
  define i where "i = hueIndex (hsl_h (toHsl color))"
  define w where "w = arrayGet hueNames i"
  have hr: "0 \<le> hsl_h (toHsl color)" "hsl_h (toHsl color) < 360"
    using toHsl_hue_range[of color] by simp_all
  have ir: "0 \<le> i" "i \<le> 5" using hueIndex_range[OF hr] by (simp_all add: i_def)
  have six: "w \<in> set [''Red'', ''Orange'', ''Yellow'', ''Green'', ''Blue'', ''Purple'']"
    unfolding w_def by (rule arrayGet_hueNames_six[OF ir])
  obtain pre0 where n: "generateColorName color = pre0 @ '' '' @ w"
    using generateColorName_eq[of color] unfolding i_def[symmetric] w_def[symmetric]
    by (metis append.assoc)
  have ex: "\<exists>pre w. w \<in> set [''Red'', ''Orange'', ''Yellow'', ''Green'', ''Blue'', ''Purple''] \<and>
      generateColorName color = pre @ '' '' @ w"
    using six n by blast
  have lastw: "last (generateColorName color) = last w" "last w \<noteq> CHR ''k''"
    using six n by auto
  have nopink: "\<not> (\<exists>pre. generateColorName color = pre @ ''Pink'')"
  proof
    assume "\<exists>pre. generateColorName color = pre @ ''Pink''"
    then obtain pre where "generateColorName color = pre @ ''Pink''" ..
    then have "last (generateColorName color) = CHR ''k''" by simp
    with lastw show False by simp
  qed
  have gen: "0 \<le> h \<and> h < 360 \<longrightarrow>
      0 \<le> hueIndex h \<and> hueIndex h \<le> 5 \<and>
      arrayGet hueNames (hueIndex h) \<in>
        set [''Red'', ''Orange'', ''Yellow'', ''Green'', ''Blue'', ''Purple'']"
    using hueIndex_range[of h] arrayGet_hueNames_six[of "hueIndex h"] by blast
  show ?thesis using hr ir six ex nopink gen unfolding w_def i_def by blast
qed

theorem hueIndex_in_bounds_witness:
  "hueIndex 359 = 5 \<and> arrayGet hueNames (hueIndex 359) = ''Purple'' \<and>
   generateColorName (new_TinyColor (Str ''#ff0004'')) = ''Vibrant Purple''"
proof -
  have i: "hueIndex 359 = 5" by code_simp
  have a: "arrayGet hueNames 5 = ''Purple''" by code_simp
  have c: "new_TinyColor (Str ''#ff0004'') =
      \<lparr>tc_r = 255, tc_g = 0, tc_b = 4, format = FormatHex, isValid = True\<rparr>" by code_simp
  have n: "generateColorName \<lparr>tc_r = 255, tc_g = 0, tc_b = 4, format = FormatHex, isValid = True\<rparr> =
      ''Vibrant Purple''" by code_simp
  have "(0::real) \<le> 359 \<and> (359::real) < 360" by simp
  with hueIndex_in_bounds [of "new_TinyColor (Str ''#ff0004'')" 359]
  have "0 \<le> hueIndex 359 \<and> hueIndex 359 \<le> 5" by blast
  then show ?thesis using i a c n by simp
qed

end
